theory Spec2Isabelle
  imports Main "HOL-Library.Word"
begin

unbundle bit_operations_syntax

section \<open>Data model (graph.h)\<close>

text \<open>
  Pointers are addresses: a \<open>struct Node *\<close> is the index of the node in the node
  obstack, a \<open>struct Component *\<close> is the index of the component in the store of
  malloc'ed components, and \<open>NULL\<close> is \<open>None\<close>. The list links of \<open>sys/queue.h\<close>
  (\<open>hashlink\<close>, \<open>complink\<close>, \<open>nodelink\<close>, \<open>list\<close>) are the lists of addresses that they
  chain, head first.
\<close>

datatype Edge = Edge (tgt: nat)

record Node =
  ncomp :: "nat option"
  out_edges :: "Edge list"
  out_degree :: "32 word"
  in_degree :: "32 word"
  hv :: "32 word"
  ident :: string

record Component =
  cnodes :: "nat list"
  cnode_count :: "32 word"
  cedge_count :: "32 word"

text \<open>
  \<open>struct Graph\<close>, together with the memory it points into: \<open>node_os\<close> is the node
  obstack (the Node allocated as number \<open>i\<close> lives at address \<open>i\<close>), \<open>comp_heap\<close> the
  components handed out by \<open>malloc\<close> (a freed one is \<open>None\<close>; addresses are never
  reused). Edges live inside the \<open>out_edges\<close> list of their source, so the edge obstack
  has no store of its own. \<open>malloc_ok\<close> lists the outcomes of the coming calls of
  \<open>malloc\<close> (\<open>False\<close>: it returns NULL), \<open>chunk_ok\<close> the outcomes of the coming obstack
  allocations (\<open>False\<close>: a new chunk was needed and \<open>malloc\<close> returned NULL inside
  \<open>xmalloc\<close>); an exhausted list means that every later allocation succeeds.
\<close>

record Graph =
  components :: "nat list"
  nodes :: "nat list list"
  hashmask :: "32 word"
  flags :: "32 word"
  node_count :: "32 word"
  resize_threshold :: "32 word"
  node_os :: "Node list"
  comp_heap :: "Component option list"
  malloc_ok :: "bool list"
  chunk_ok :: "bool list"

definition GRAPH_UNDIRECTED :: "32 word" where "GRAPH_UNDIRECTED = 0x01"
definition GRAPH_NOPARALLEL :: "32 word" where "GRAPH_NOPARALLEL = 0x02"
definition GRAPH_NOLOOP :: "32 word" where "GRAPH_NOLOOP = 0x04"
definition GRAPH_DUAL :: "32 word" where "GRAPH_DUAL = 0x08"

definition UINT32_MAX :: "32 word" where "UINT32_MAX = 0xFFFFFFFF"

text \<open>
  The ways in which a call ends the process instead of returning: \<open>xmalloc\<close> calling
  \<open>error(2, errno, "malloc()")\<close>, a failed \<open>assert\<close>, the NULL dereference of
  \<open>SLIST_REMOVE\<close> walking a list that does not hold the element, and \<open>abort()\<close>.
\<close>

datatype fatal = MallocExit | AssertionFailed | NullDeref | Aborted

datatype errno = EINVAL

section \<open>Allocation\<close>

definition malloc :: "Graph \<Rightarrow> bool \<times> Graph" where
  "malloc g = (case malloc_ok g of
                 [] \<Rightarrow> (True, g)
               | b # bs \<Rightarrow> (b, g\<lparr>malloc_ok := bs\<rparr>))"

text \<open>
  \<open>obstack_alloc\<close> with \<open>obstack_chunk_alloc = xmalloc\<close>: the request is served, or the
  process is gone. It never returns NULL.
\<close>

definition obstack_alloc :: "Graph \<Rightarrow> fatal + Graph" where
  "obstack_alloc g = (case chunk_ok g of
                        [] \<Rightarrow> Inr g
                      | b # bs \<Rightarrow> if b then Inr (g\<lparr>chunk_ok := bs\<rparr>) else Inl MallocExit)"

section \<open>Small node and component methods\<close>

text \<open>\<open>strcmp\<close> on NUL-free byte strings; only the sign of the result is kept.\<close>

fun strcmp :: "string \<Rightarrow> string \<Rightarrow> int" where
  "strcmp [] [] = 0"
| "strcmp [] (y # ys) = -1"
| "strcmp (x # xs) [] = 1"
| "strcmp (x # xs) (y # ys) =
     (if x = y then strcmp xs ys
      else if (of_char x :: nat) < of_char y then -1 else 1)"

definition nodes_cmp :: "Node \<Rightarrow> Node \<Rightarrow> int" where
  "nodes_cmp n1 n2 =
     (if hv n1 < hv n2 then -1
      else if hv n1 > hv n2 then 1
      else strcmp (ident n1) (ident n2))"

definition the_comp :: "Graph \<Rightarrow> nat \<Rightarrow> Component" where
  "the_comp g c = the (comp_heap g ! c)"

definition graph_new_component :: "Graph \<Rightarrow> nat option \<times> Graph" where
  "graph_new_component g =
     (case malloc g of
        (False, g') \<Rightarrow> (None, g')
      | (True, g') \<Rightarrow>
          (let c = length (comp_heap g')
           in (Some c,
               g'\<lparr>comp_heap := comp_heap g' @
                      [Some \<lparr>cnodes = [], cnode_count = 0, cedge_count = 0\<rparr>],
                  components := components g' @ [c]\<rparr>)))"

definition graph_remove_component :: "Graph \<Rightarrow> nat \<Rightarrow> Graph" where
  "graph_remove_component g c =
     g\<lparr>components := remove1 c (components g),
       comp_heap := (comp_heap g)[c := None]\<rparr>"

definition set_ncomp :: "nat option \<Rightarrow> Node list \<Rightarrow> nat \<Rightarrow> Node list" where
  "set_ncomp c os n = os[n := (os ! n)\<lparr>ncomp := c\<rparr>]"

definition graph_merge_components :: "Graph \<Rightarrow> nat \<Rightarrow> nat \<Rightarrow> fatal + nat \<times> Graph" where
  "graph_merge_components g c1 c2 =
     (if c1 = c2 then Inl AssertionFailed
      else
        (let (c1, c2) = (if cnode_count (the_comp g c2) > cnode_count (the_comp g c1)
                         then (c2, c1) else (c1, c2));
             C1 = the_comp g c1;
             C2 = the_comp g c2;
             os = fold (\<lambda>n os. set_ncomp (Some c1) os n) (cnodes C2) (node_os g);
             C1' = C1\<lparr>cnodes := cnodes C1 @ cnodes C2,
                      cnode_count := cnode_count C1 + cnode_count C2,
                      cedge_count := cedge_count C1 + cedge_count C2\<rparr>;
             C2' = C2\<lparr>cnodes := [], cnode_count := 0, cedge_count := 0\<rparr>;
             g' = g\<lparr>node_os := os,
                    comp_heap := (comp_heap g)[c1 := Some C1', c2 := Some C2']\<rparr>
         in Inr (c1, graph_remove_component g' c2)))"

definition component_add_node :: "Graph \<Rightarrow> nat \<Rightarrow> nat \<Rightarrow> Graph" where
  "component_add_node g c n =
     (let C = the_comp g c
      in g\<lparr>comp_heap := (comp_heap g)
               [c := Some (C\<lparr>cnodes := cnodes C @ [n], cnode_count := cnode_count C + 1\<rparr>)],
           node_os := set_ncomp (Some c) (node_os g) n\<rparr>)"

definition node_add_out_edge :: "Graph \<Rightarrow> nat \<Rightarrow> Edge \<Rightarrow> fatal + Graph" where
  "node_add_out_edge g node e =
     (case ncomp (node_os g ! node) of
        None \<Rightarrow> Inl NullDeref
      | Some c \<Rightarrow>
          if ncomp (node_os g ! tgt e) \<noteq> Some c then Inl AssertionFailed
          else
            (let os1 = (node_os g)[node := (node_os g ! node)
                          \<lparr>out_edges := e # out_edges (node_os g ! node),
                           out_degree := out_degree (node_os g ! node) + 1\<rparr>];
                 os2 = os1[tgt e := (os1 ! tgt e)\<lparr>in_degree := in_degree (os1 ! tgt e) + 1\<rparr>];
                 C = the_comp g c
             in Inr (g\<lparr>node_os := os2,
                       comp_heap := (comp_heap g)[c := Some (C\<lparr>cedge_count := cedge_count C + 1\<rparr>)]\<rparr>)))"

section \<open>The hash table of nodes\<close>

text \<open>\<open>__builtin_ctz\<close> on an \<open>unsigned int\<close>; 32 stands for its undefined result at 0.\<close>

fun ctz_aux :: "nat \<Rightarrow> 32 word \<Rightarrow> nat" where
  "ctz_aux 0 w = 0"
| "ctz_aux (Suc k) w = (if w AND 1 = 1 then 0 else Suc (ctz_aux k (drop_bit 1 w)))"

definition builtin_ctz :: "32 word \<Rightarrow> nat" where
  "builtin_ctz w = ctz_aux 32 w"

text \<open>
  The inner \<open>while\<close> loop of the rehash: the nodes of one old bucket are taken from its
  head and pushed onto the head of \<open>newbucket[n->hv & g->hashmask]\<close>, where
  \<open>g->hashmask\<close> is still the mask of the old table.
\<close>

fun rehash_bucket :: "Node list \<Rightarrow> 32 word \<Rightarrow> nat list \<Rightarrow> nat list list \<Rightarrow> nat list list" where
  "rehash_bucket os m [] newbucket = newbucket"
| "rehash_bucket os m (n # ns) newbucket =
     rehash_bucket os m ns
       (newbucket[unat (hv (os ! n) AND m) := n # newbucket ! unat (hv (os ! n) AND m)])"

text \<open>\<open>size_t\<close> is 64 bits wide (LP64).\<close>

definition graph_attempt_hash_resize :: "Graph \<Rightarrow> Graph" where
  "graph_attempt_hash_resize g =
     (let oldsize = (ucast (hashmask g + 1) :: 64 word);
          newsize = 2 * oldsize;
          newmask = (ucast (newsize - 1) :: 32 word)
      in case malloc g of
           (False, g') \<Rightarrow> g'\<lparr>resize_threshold := UINT32_MAX\<rparr>
         | (True, g') \<Rightarrow>
             (let newbucket = fold (\<lambda>i nb. rehash_bucket (node_os g') (hashmask g') (nodes g' ! i) nb)
                                [0 ..< unat oldsize] (replicate (unat newsize) []);
                  newsize' = newsize * of_nat (builtin_ctz (ucast newsize))
              in g'\<lparr>nodes := newbucket,
                    hashmask := newmask,
                    resize_threshold :=
                      (if newsize' > ucast UINT32_MAX then UINT32_MAX else ucast newsize')\<rparr>))"

text \<open>
  A fresh Node at the top of the node obstack. Its fields are uninitialised storage;
  the only caller sets every one of them before the node is linked anywhere.
\<close>

definition blank_node :: Node where
  "blank_node = \<lparr>ncomp = None, out_edges = [], out_degree = 0, in_degree = 0, hv = 0, ident = []\<rparr>"

definition graph_alloc_node :: "Graph \<Rightarrow> fatal + nat \<times> Graph" where
  "graph_alloc_node g =
     (case obstack_alloc g of
        Inl f \<Rightarrow> Inl f
      | Inr g1 \<Rightarrow>
          (let n = length (node_os g1);
               g2 = g1\<lparr>node_os := node_os g1 @ [blank_node], node_count := node_count g1 + 1\<rparr>
           in Inr (n, if node_count g2 > resize_threshold g2
                      then graph_attempt_hash_resize g2 else g2)))"

text \<open>
  \<open>SLIST_REMOVE\<close>: the head is unlinked directly, otherwise the list is walked to the
  element before \<open>elm\<close>; the walk dereferences NULL when \<open>elm\<close> is not in the list.
\<close>

fun SLIST_REMOVE :: "nat list \<Rightarrow> nat \<Rightarrow> nat list option" where
  "SLIST_REMOVE [] elm = None"
| "SLIST_REMOVE (x # xs) elm =
     (if x = elm then Some xs else map_option ((#) x) (SLIST_REMOVE xs elm))"

definition graph_remove_last_node :: "Graph \<Rightarrow> nat \<Rightarrow> fatal + Graph" where
  "graph_remove_last_node g n =
     (if ncomp (node_os g ! n) \<noteq> None then Inl AssertionFailed
      else
        (let k = unat (hashmask g AND hv (node_os g ! n))
         in case SLIST_REMOVE (nodes g ! k) n of
              None \<Rightarrow> Inl NullDeref
            | Some b \<Rightarrow> Inr (g\<lparr>nodes := (nodes g)[k := b],
                              node_os := take n (node_os g),
                              node_count := node_count g - 1\<rparr>)))"

text \<open>The \<open>SLIST_FOREACH\<close> of \<open>graph_add_node_internal\<close> over one hash bucket.\<close>

fun bucket_lookup :: "Node list \<Rightarrow> 32 word \<Rightarrow> string \<Rightarrow> nat list \<Rightarrow> nat option" where
  "bucket_lookup os h nstr [] = None"
| "bucket_lookup os h nstr (n # ns) =
     (if h = hv (os ! n) \<and> strcmp nstr (ident (os ! n)) = 0 then Some n
      else bucket_lookup os h nstr ns)"

text \<open>
  The initialisation of the fresh node \<open>n\<close> and its insertion at the head of its hash
  bucket, as \<open>graph_add_node_internal\<close> does them.
\<close>

definition link_new_node :: "Graph \<Rightarrow> nat \<Rightarrow> 32 word \<Rightarrow> string \<Rightarrow> Graph" where
  "link_new_node g n h nstr =
     (let k = unat (hashmask g AND h)
      in g\<lparr>node_os := (node_os g)
                [n := \<lparr>ncomp = None, out_edges = [], out_degree = 0,
                       in_degree = 0, hv = h, ident = nstr\<rparr>],
            nodes := (nodes g)[k := n # nodes g ! k]\<rparr>)"

text \<open>
  \<open>jenkins_hash(nstr, idlen, HASH_INIT)\<close> is the parameter \<open>hf\<close>: the header declares
  it, its implementation is not part of the sources at hand.
\<close>

definition graph_add_node_internal ::
    "(string \<Rightarrow> 32 word) \<Rightarrow> Graph \<Rightarrow> string \<Rightarrow> bool \<Rightarrow> fatal + nat option \<times> Graph" where
  "graph_add_node_internal hf g nstr create_comp =
     (let h = hf nstr
      in case bucket_lookup (node_os g) h nstr (nodes g ! unat (hashmask g AND h)) of
           Some n \<Rightarrow> Inr (Some n, g)
         | None \<Rightarrow>
             (case graph_alloc_node g of
                Inl f \<Rightarrow> Inl f
              | Inr (n, g1) \<Rightarrow>
                  (let g2 = link_new_node g1 n h nstr
                   in if create_comp
                      then (case graph_new_component g2 of
                              (None, g3) \<Rightarrow>
                                (case graph_remove_last_node g3 n of
                                   Inl f \<Rightarrow> Inl f
                                 | Inr g4 \<Rightarrow> Inr (None, g4))
                            | (Some c, g3) \<Rightarrow> Inr (Some n, component_add_node g3 c n))
                      else Inr (Some n, g2))))"

section \<open>Public interface\<close>

fun graph_edge_exists :: "Edge list \<Rightarrow> nat \<Rightarrow> bool" where
  "graph_edge_exists [] t = False"
| "graph_edge_exists (e # es) t = (if tgt e = t then True else graph_edge_exists es t)"

text \<open>
  \<open>graph_init\<close> works on the caller's \<open>struct Graph\<close>, whatever it holds, and
  returns its \<open>int\<close> and the value it stored in \<open>errno\<close>, if any. \<open>obstack_begin\<close>
  allocates the first chunk of an obstack through \<open>xmalloc\<close>.
\<close>

definition obstack_begin :: "Graph \<Rightarrow> fatal + Graph" where
  "obstack_begin g = obstack_alloc g"

definition graph_init :: "Graph \<Rightarrow> 32 word \<Rightarrow> fatal + int \<times> errno option \<times> Graph" where
  "graph_init g fl =
     (let bshift = (4 :: nat) in
      if fl AND NOT (GRAPH_UNDIRECTED OR GRAPH_NOPARALLEL OR GRAPH_NOLOOP OR GRAPH_DUAL) \<noteq> 0
      then Inr (-1, Some EINVAL, g)
      else if fl AND GRAPH_UNDIRECTED \<noteq> 0 \<and> fl AND GRAPH_DUAL \<noteq> 0
      then Inr (-1, Some EINVAL, g)
      else
        (let g1 = g\<lparr>components := []\<rparr>;
             buckets = (push_bit bshift 1 :: 32 word)
         in case malloc g1 of
              (False, g2) \<Rightarrow> Inr (-1, None, g2)
            | (True, g2) \<Rightarrow>
                (let g3 = g2\<lparr>nodes := replicate (unat buckets) [],
                             node_count := 0,
                             resize_threshold := of_nat bshift * buckets,
                             hashmask := buckets - 1\<rparr>
                 in if buckets AND hashmask g3 \<noteq> 0 \<or> drop_bit bshift (hashmask g3) \<noteq> 0
                    then Inl AssertionFailed
                    else (case obstack_begin (g3\<lparr>node_os := []\<rparr>) of
                            Inl f \<Rightarrow> Inl f
                          | Inr g4 \<Rightarrow>
                              (case obstack_begin g4 of
                                 Inl f \<Rightarrow> Inl f
                               | Inr g5 \<Rightarrow> Inr (0, None, g5\<lparr>flags := fl\<rparr>))))))"

definition TAILQ_LAST :: "nat list \<Rightarrow> nat option" where
  "TAILQ_LAST cs = (if cs = [] then None else Some (last cs))"

definition graph_add_node :: "(string \<Rightarrow> 32 word) \<Rightarrow> Graph \<Rightarrow> string \<Rightarrow> fatal + int \<times> Graph" where
  "graph_add_node hf g nstr =
     (let last_before = TAILQ_LAST (components g)
      in case graph_add_node_internal hf g nstr True of
           Inl f \<Rightarrow> Inl f
         | Inr (None, g1) \<Rightarrow> Inr (-1, g1)
         | Inr (Some node, g1) \<Rightarrow>
             if ncomp (node_os g1 ! node) = None then Inl AssertionFailed
             else Inr (if last_before \<noteq> TAILQ_LAST (components g1) then 1 else 0, g1))"

text \<open>
  \<open>do_add_edge\<close>: the edge is allocated from the edge obstack first; the five cases
  (a) to (e) of the source follow in its order. Each of them ends with
  \<open>node_add_out_edge(src, e); return 1;\<close>, which is \<open>link_edge\<close>.
\<close>

definition link_edge :: "Graph \<Rightarrow> nat \<Rightarrow> Edge \<Rightarrow> fatal + int \<times> Graph" where
  "link_edge g src e =
     (case node_add_out_edge g src e of
        Inl f \<Rightarrow> Inl f
      | Inr g1 \<Rightarrow> Inr (1, g1))"

definition do_add_edge :: "Graph \<Rightarrow> nat \<Rightarrow> nat \<Rightarrow> fatal + int \<times> Graph" where
  "do_add_edge g src tgt' =
     (case obstack_alloc g of
        Inl f \<Rightarrow> Inl f
      | Inr g0 \<Rightarrow>
          (let e = Edge tgt'
           in if ncomp (node_os g0 ! src) = None \<and> ncomp (node_os g0 ! tgt') = None
              then (case graph_new_component g0 of
                      (None, g1) \<Rightarrow> Inr (-1, g1)
                    | (Some c, g1) \<Rightarrow>
                        (let g2 = component_add_node g1 c src;
                             g3 = (if src \<noteq> tgt' then component_add_node g2 c tgt' else g2)
                         in link_edge g3 src e))
              else if ncomp (node_os g0 ! src) = None
              then link_edge (component_add_node g0 (the (ncomp (node_os g0 ! tgt'))) src) src e
              else if ncomp (node_os g0 ! tgt') = None
              then link_edge (component_add_node g0 (the (ncomp (node_os g0 ! src))) tgt') src e
              else if ncomp (node_os g0 ! src) = ncomp (node_os g0 ! tgt')
              then link_edge g0 src e
              else (case graph_merge_components g0 (the (ncomp (node_os g0 ! src)))
                                                  (the (ncomp (node_os g0 ! tgt'))) of
                      Inl f \<Rightarrow> Inl f
                    | Inr (c, g1) \<Rightarrow> link_edge g1 src e)))"

text \<open>
  \<open>graph_add_edge\<close> in three parts, in the order of the source: the failure path
  after \<open>do_add_edge\<close> returned a negative value (\<open>n1\<close>, \<open>n2\<close> already swapped back),
  the part from the no-loop test on (\<open>n1\<close>, \<open>n2\<close> in canonical order), and the
  resolution of the two endpoints.
\<close>

definition graph_add_edge_undo :: "Graph \<Rightarrow> nat \<Rightarrow> nat \<Rightarrow> fatal + int \<times> Graph" where
  "graph_add_edge_undo g n1 n2 =
     (case (if ncomp (node_os g ! n2) = None then graph_remove_last_node g n2 else Inr g) of
        Inl f \<Rightarrow> Inl f
      | Inr g1 \<Rightarrow>
          (case (if n1 \<noteq> n2 \<and> ncomp (node_os g1 ! n1) = None
                 then graph_remove_last_node g1 n1 else Inr g1) of
             Inl f \<Rightarrow> Inl f
           | Inr g2 \<Rightarrow> Inr (-1, g2)))"

definition graph_add_edge_nodes :: "Graph \<Rightarrow> nat \<Rightarrow> nat \<Rightarrow> bool \<Rightarrow> fatal + int \<times> Graph" where
  "graph_add_edge_nodes g n1 n2 swapped =
     (if n1 = n2 \<and> flags g AND GRAPH_NOLOOP \<noteq> 0
      then (if ncomp (node_os g ! n1) = None
            then (case graph_new_component g of
                    (None, g1) \<Rightarrow>
                      (case graph_remove_last_node g1 n1 of
                         Inl f \<Rightarrow> Inl f
                       | Inr g2 \<Rightarrow> Inr (-1, g2))
                  | (Some c, g1) \<Rightarrow> Inr (0, component_add_node g1 c n1))
            else Inr (0, g))
      else if flags g AND GRAPH_NOPARALLEL \<noteq> 0
              \<and> ncomp (node_os g ! n1) \<noteq> None
              \<and> ncomp (node_os g ! n1) = ncomp (node_os g ! n2)
              \<and> graph_edge_exists (out_edges (node_os g ! n1)) n2
      then Inr (0, g)
      else
        (case do_add_edge g n1 n2 of
           Inl f \<Rightarrow> Inl f
         | Inr (r, g1) \<Rightarrow>
             if r < 0
             then (if swapped then graph_add_edge_undo g1 n2 n1 else graph_add_edge_undo g1 n1 n2)
             else if ncomp (node_os g1 ! n1) = None
                     \<or> ncomp (node_os g1 ! n1) \<noteq> ncomp (node_os g1 ! n2)
             then Inl AssertionFailed
             else if flags g1 AND GRAPH_DUAL \<noteq> 0 \<and> n1 \<noteq> n2
             then (case do_add_edge g1 n2 n1 of
                     Inl f \<Rightarrow> Inl f
                   | Inr (r2, g2) \<Rightarrow> if r2 < 0 then Inr (-1, g2) else Inr (2, g2))
             else Inr (1, g1)))"

definition graph_add_edge ::
    "(string \<Rightarrow> 32 word) \<Rightarrow> Graph \<Rightarrow> string \<Rightarrow> string \<Rightarrow> fatal + int \<times> Graph" where
  "graph_add_edge hf g s1 s2 =
     (case graph_add_node_internal hf g s1 False of
        Inl f \<Rightarrow> Inl f
      | Inr (None, g1) \<Rightarrow> Inr (-1, g1)
      | Inr (Some n1, g1) \<Rightarrow>
          (case graph_add_node_internal hf g1 s2 False of
             Inl f \<Rightarrow> Inl f
           | Inr (None, g2) \<Rightarrow>
               (if ncomp (node_os g2 ! n1) = None
                then (case graph_remove_last_node g2 n1 of
                        Inl f \<Rightarrow> Inl f
                      | Inr g3 \<Rightarrow> Inr (-1, g3))
                else Inr (-1, g2))
           | Inr (Some n2, g2) \<Rightarrow>
               if flags g2 AND GRAPH_UNDIRECTED \<noteq> 0
                  \<and> nodes_cmp (node_os g2 ! n1) (node_os g2 ! n2) > 0
               then graph_add_edge_nodes g2 n2 n1 True
               else graph_add_edge_nodes g2 n1 n2 False))"

section \<open>Iteration\<close>

text \<open>
  A callback takes the node (or the component, or source and target of the edge) and
  the caller's context, and returns an \<open>int\<close> with the context it leaves. The loops
  stop at the first non-zero value and return it.
\<close>

fun iterate :: "('a \<Rightarrow> 'ctx \<Rightarrow> int \<times> 'ctx) \<Rightarrow> 'a list \<Rightarrow> 'ctx \<Rightarrow> int \<times> 'ctx" where
  "iterate cb [] ctx = (0, ctx)"
| "iterate cb (x # xs) ctx =
     (case cb x ctx of (r, ctx') \<Rightarrow> if r \<noteq> 0 then (r, ctx') else iterate cb xs ctx')"

definition graph_iterate_components ::
    "Graph \<Rightarrow> (nat \<Rightarrow> 'ctx \<Rightarrow> int \<times> 'ctx) \<Rightarrow> 'ctx \<Rightarrow> int \<times> 'ctx" where
  "graph_iterate_components g callback ctx = iterate callback (components g) ctx"

definition component_iterate_nodes ::
    "Graph \<Rightarrow> nat \<Rightarrow> (nat \<Rightarrow> 'ctx \<Rightarrow> int \<times> 'ctx) \<Rightarrow> 'ctx \<Rightarrow> int \<times> 'ctx" where
  "component_iterate_nodes g c cb ctx = iterate cb (cnodes (the_comp g c)) ctx"

definition component_iterate_edges ::
    "Graph \<Rightarrow> nat \<Rightarrow> (nat \<Rightarrow> nat \<Rightarrow> 'ctx \<Rightarrow> int \<times> 'ctx) \<Rightarrow> 'ctx \<Rightarrow> int \<times> 'ctx" where
  "component_iterate_edges g c cb ctx =
     iterate (\<lambda>(src, e). cb src (tgt e))
       (concat (map (\<lambda>src. map (Pair src) (out_edges (node_os g ! src)))
                    (cnodes (the_comp g c))))
       ctx"

definition graph_iterate_nodes ::
    "Graph \<Rightarrow> (nat \<Rightarrow> 'ctx \<Rightarrow> int \<times> 'ctx) \<Rightarrow> 'ctx \<Rightarrow> int \<times> 'ctx" where
  "graph_iterate_nodes g cb ctx =
     iterate (\<lambda>c. component_iterate_nodes g c cb) (components g) ctx"

definition graph_iterate_edges ::
    "Graph \<Rightarrow> (nat \<Rightarrow> nat \<Rightarrow> 'ctx \<Rightarrow> int \<times> 'ctx) \<Rightarrow> 'ctx \<Rightarrow> int \<times> 'ctx" where
  "graph_iterate_edges g cb ctx =
     iterate (\<lambda>c. component_iterate_edges g c cb) (components g) ctx"

section \<open>Node sets (clique.c)\<close>

text \<open>
  A \<open>struct NodeSet\<close>: the array \<open>nodes[0 .. len - 1]\<close> is the list \<open>ns_nodes\<close>, so
  \<open>len\<close> is its length; \<open>cap\<close> and \<open>len\<close> are natural numbers (the 32 bits of the
  source do not overflow below \<open>2 ^ 31\<close> nodes). Nodes are compared by address.
\<close>

record NodeSet =
  ns_cap :: nat
  ns_sorted :: bool
  ns_nodes :: "nat list"

record nodesetpool =
  sets :: "NodeSet list"
  count :: "32 word"

text \<open>
  \<open>struct cliqctx\<close>, without the callback (a parameter of the functions below), and
  with the outcomes \<open>heap_ok\<close> of the coming calls of \<open>malloc\<close> and \<open>realloc\<close>
  (\<open>False\<close>: NULL; an exhausted list means that every later call succeeds).
\<close>

record 'ctx cliqctx =
  user_ctx :: 'ctx
  R :: NodeSet
  pool :: nodesetpool
  heap_ok :: "bool list"

definition clique_malloc :: "'ctx cliqctx \<Rightarrow> bool \<times> 'ctx cliqctx" where
  "clique_malloc c = (case heap_ok c of
                        [] \<Rightarrow> (True, c)
                      | b # bs \<Rightarrow> (b, c\<lparr>heap_ok := bs\<rparr>))"

definition nodeset_alloc :: "'ctx cliqctx \<Rightarrow> nat \<Rightarrow> NodeSet option \<times> 'ctx cliqctx" where
  "nodeset_alloc c init =
     (case clique_malloc c of
        (False, c1) \<Rightarrow> (None, c1)
      | (True, c1) \<Rightarrow>
          (let init' = (if init < 7 then 7 else init)
           in case clique_malloc c1 of
                (False, c2) \<Rightarrow> (None, c2)
              | (True, c2) \<Rightarrow> (Some \<lparr>ns_cap = init', ns_sorted = True, ns_nodes = []\<rparr>, c2)))"

definition cmp_nodeptr :: "nat \<Rightarrow> nat \<Rightarrow> int" where
  "cmp_nodeptr x y = (if x < y then -1 else if x > y then 1 else 0)"

text \<open>\<open>qsort\<close> with \<open>cmp_nodeptr\<close> leaves the addresses in ascending order.\<close>

definition nodeset_sort :: "NodeSet \<Rightarrow> NodeSet" where
  "nodeset_sort ns =
     (if ns_sorted ns then ns
      else ns\<lparr>ns_nodes := (if length (ns_nodes ns) > 1 then sort (ns_nodes ns) else ns_nodes ns),
              ns_sorted := True\<rparr>)"

definition nodeset_clear :: "NodeSet \<Rightarrow> NodeSet" where
  "nodeset_clear ns = ns\<lparr>ns_nodes := [], ns_sorted := True\<rparr>"

text \<open>The binary search of \<open>nodeset_contains\<close>.\<close>

function contains_search :: "nat list \<Rightarrow> nat \<Rightarrow> nat \<Rightarrow> nat \<Rightarrow> bool" where
  "contains_search xs node lower upper =
     (if lower < upper
      then (let idx = (lower + upper) div 2;
                c = cmp_nodeptr (xs ! idx) node
            in if c > 0 then contains_search xs node lower idx
               else if c < 0 then contains_search xs node (idx + 1) upper
               else True)
      else False)"
  by pat_completeness auto
termination
  by (relation "measure (\<lambda>(xs, node, lower, upper). upper - lower)") auto

declare contains_search.simps [simp del]

fun contains_scan :: "nat list \<Rightarrow> nat \<Rightarrow> bool" where
  "contains_scan [] node = False"
| "contains_scan (x # xs) node = (if x = node then True else contains_scan xs node)"

definition nodeset_contains :: "NodeSet \<Rightarrow> nat \<Rightarrow> bool" where
  "nodeset_contains ns node =
     (if ns_sorted ns \<and> length (ns_nodes ns) \<ge> 7
      then contains_search (ns_nodes ns) node 0 (length (ns_nodes ns))
      else contains_scan (ns_nodes ns) node)"

definition nodeset_increase_capacity ::
    "'ctx cliqctx \<Rightarrow> NodeSet \<Rightarrow> int \<times> NodeSet \<times> 'ctx cliqctx" where
  "nodeset_increase_capacity c ns =
     (let newcap = ns_cap ns + ns_cap ns div 2 + 1
      in case clique_malloc c of
           (False, c1) \<Rightarrow> (-1, ns, c1)
         | (True, c1) \<Rightarrow> (0, ns\<lparr>ns_cap := newcap\<rparr>, c1))"

text \<open>
  The first statement of \<open>nodeset_append\<close> and of \<open>nodeset_insert_sorted\<close>:
  \<open>ns->len == ns->cap && nodeset_increase_capacity(ns)\<close>.
\<close>

definition nodeset_room :: "'ctx cliqctx \<Rightarrow> NodeSet \<Rightarrow> int \<times> NodeSet \<times> 'ctx cliqctx" where
  "nodeset_room c ns =
     (if length (ns_nodes ns) = ns_cap ns then nodeset_increase_capacity c ns else (0, ns, c))"

definition nodeset_append ::
    "'ctx cliqctx \<Rightarrow> NodeSet \<Rightarrow> nat \<Rightarrow> int \<times> NodeSet \<times> 'ctx cliqctx" where
  "nodeset_append c ns node =
     (case nodeset_room c ns of
        (r, ns1, c1) \<Rightarrow>
          if r \<noteq> 0 then (-1, ns1, c1)
          else (0,
                ns1\<lparr>ns_sorted := (length (ns_nodes ns1) = 0
                                   \<or> (ns_sorted ns1 \<and> cmp_nodeptr (last (ns_nodes ns1)) node < 0)),
                    ns_nodes := ns_nodes ns1 @ [node]\<rparr>,
                c1))"

text \<open>
  The binary search of \<open>nodeset_insert_sorted\<close>, with the loop variables \<open>idx\<close> and
  \<open>cmp\<close> that the code reads after the loop; \<open>None\<close> is the \<open>abort()\<close> on an element
  that is already there.
\<close>

function insert_search ::
    "nat list \<Rightarrow> nat \<Rightarrow> nat \<Rightarrow> nat \<Rightarrow> nat \<Rightarrow> int \<Rightarrow> (nat \<times> int) option" where
  "insert_search xs node lower upper idx c =
     (if lower < upper
      then (let idx' = (lower + upper) div 2;
                c' = cmp_nodeptr (xs ! idx') node
            in if c' > 0 then insert_search xs node lower idx' idx' c'
               else if c' < 0 then insert_search xs node (idx' + 1) upper idx' c'
               else None)
      else Some (idx, c))"
  by pat_completeness auto
termination
  by (relation "measure (\<lambda>(xs, node, lower, upper, idx, c). upper - lower)") auto

declare insert_search.simps [simp del]

definition nodeset_insert_sorted ::
    "'ctx cliqctx \<Rightarrow> NodeSet \<Rightarrow> nat \<Rightarrow> fatal + int \<times> NodeSet \<times> 'ctx cliqctx" where
  "nodeset_insert_sorted c ns node =
     (case nodeset_room c ns of
        (r, ns1, c1) \<Rightarrow>
          if r \<noteq> 0 then Inr (-1, ns1, c1)
          else if \<not> ns_sorted ns1 \<or> length (ns_nodes ns1) = 0
          then Inr (0, nodeset_sort (ns1\<lparr>ns_nodes := ns_nodes ns1 @ [node]\<rparr>), c1)
          else if ns_sorted ns1 \<and> cmp_nodeptr (last (ns_nodes ns1)) node < 0
          then Inr (0, ns1\<lparr>ns_nodes := ns_nodes ns1 @ [node]\<rparr>, c1)
          else (case insert_search (ns_nodes ns1) node 0 (length (ns_nodes ns1)) 0 0 of
                  None \<Rightarrow> Inl Aborted
                | Some (idx, cmp) \<Rightarrow>
                    (let idx' = (if cmp < 0 then idx + 1 else idx)
                     in Inr (0,
                             ns1\<lparr>ns_nodes := take idx' (ns_nodes ns1) @ [node]
                                                @ drop idx' (ns_nodes ns1)\<rparr>,
                             c1))))"

definition nodeset_intersect :: "NodeSet \<Rightarrow> NodeSet \<Rightarrow> NodeSet" where
  "nodeset_intersect A B = A\<lparr>ns_nodes := filter (nodeset_contains B) (ns_nodes A)\<rparr>"

section \<open>The pool of node sets\<close>

definition nsp_init :: nodesetpool where
  "nsp_init = \<lparr>sets = [], count = 0\<rparr>"

definition nsp_get :: "'ctx cliqctx \<Rightarrow> nat \<Rightarrow> NodeSet option \<times> 'ctx cliqctx" where
  "nsp_get c cap =
     (case sets (pool c) of
        ns # rest \<Rightarrow> (Some ns, c\<lparr>pool := \<lparr>sets = rest, count = count (pool c) - 1\<rparr>\<rparr>)
      | [] \<Rightarrow> nodeset_alloc c cap)"

definition nsp_put :: "nodesetpool \<Rightarrow> NodeSet option \<Rightarrow> nodesetpool" where
  "nsp_put p ns =
     (case ns of
        None \<Rightarrow> p
      | Some s \<Rightarrow> \<lparr>sets = s # sets p, count = count p + 1\<rparr>)"

section \<open>The search for maximal cliques\<close>

text \<open>
  The two inner loops of \<open>BronKerbosch\<close>: the \<open>SLIST_FOREACH\<close> that collects the
  neighbours of \<open>v\<close> in \<open>newX\<close>, and the loops that insert into \<open>newP\<close> those nodes of a
  list that \<open>newX\<close> contains. Both leave at the first failed insertion.
\<close>

fun insert_neighbours ::
    "'ctx cliqctx \<Rightarrow> NodeSet \<Rightarrow> Edge list \<Rightarrow> fatal + int \<times> NodeSet \<times> 'ctx cliqctx" where
  "insert_neighbours c ns [] = Inr (0, ns, c)"
| "insert_neighbours c ns (e # es) =
     (case nodeset_insert_sorted c ns (tgt e) of
        Inl f \<Rightarrow> Inl f
      | Inr (r, ns1, c1) \<Rightarrow>
          if r \<noteq> 0 then Inr (-1, ns1, c1) else insert_neighbours c1 ns1 es)"

fun insert_common ::
    "'ctx cliqctx \<Rightarrow> NodeSet \<Rightarrow> NodeSet \<Rightarrow> nat list \<Rightarrow> fatal + int \<times> NodeSet \<times> 'ctx cliqctx" where
  "insert_common c newX newP [] = Inr (0, newP, c)"
| "insert_common c newX newP (x # xs) =
     (if nodeset_contains newX x
      then (case nodeset_insert_sorted c newP x of
              Inl f \<Rightarrow> Inl f
            | Inr (r, newP1, c1) \<Rightarrow>
                if r \<noteq> 0 then Inr (-1, newP1, c1) else insert_common c1 newX newP1 xs)
      else insert_common c newX newP xs)"

text \<open>The node of \<open>P\<close> and \<open>X\<close> with the largest out-degree; the first one wins a tie.\<close>

definition choose_pivot :: "Graph \<Rightarrow> nat list \<Rightarrow> nat list \<Rightarrow> nat" where
  "choose_pivot g P X =
     fold (\<lambda>n pivot. if out_degree (node_os g ! n) > out_degree (node_os g ! pivot)
                       then n else pivot)
          (tl P @ X) (hd P)"

text \<open>
  \<open>BronKerbosch\<close> (with \<open>USE_PIVOT\<close> 1) and its \<open>for\<close> loop over \<open>P\<close>, which is
  \<open>bk_loop\<close> from index \<open>i\<close> on. The callback \<open>cb\<close> takes the array of \<open>R\<close> and the user's
  context. \<open>X\<close> is changed in place, so it is returned; the loop also returns the three
  sets that \<open>out:\<close> puts back into the pool.
\<close>

function BronKerbosch ::
    "Graph \<Rightarrow> (nat list \<Rightarrow> 'ctx \<Rightarrow> int \<times> 'ctx) \<Rightarrow> 'ctx cliqctx \<Rightarrow> NodeSet \<Rightarrow> NodeSet
       \<Rightarrow> fatal + int \<times> 'ctx cliqctx \<times> NodeSet"
  and bk_loop ::
    "Graph \<Rightarrow> (nat list \<Rightarrow> 'ctx \<Rightarrow> int \<times> 'ctx) \<Rightarrow> 'ctx cliqctx \<Rightarrow> NodeSet \<Rightarrow> NodeSet
       \<Rightarrow> nat \<Rightarrow> NodeSet \<Rightarrow> NodeSet \<Rightarrow> NodeSet \<Rightarrow> nat
       \<Rightarrow> fatal + int \<times> 'ctx cliqctx \<times> NodeSet \<times> NodeSet \<times> NodeSet \<times> NodeSet"
  where
  "BronKerbosch g cb c P X =
     (if length (ns_nodes P) = 0
      then (if length (ns_nodes X) = 0
            then (case cb (ns_nodes (R c)) (user_ctx c) of
                    (r, u) \<Rightarrow> Inr (r, c\<lparr>user_ctx := u\<rparr>, X))
            else Inr (0, c, X))
      else
        (case nodeset_room c (R c) of
           (r, R1, c1) \<Rightarrow>
             if r \<noteq> 0 then Inr (-1, c1\<lparr>R := R1\<rparr>, X)
             else
               (case nsp_get (c1\<lparr>R := R1\<rparr>) 0 of
                  (newP, c3) \<Rightarrow>
                    (case nsp_get c3 0 of
                       (newX, c4) \<Rightarrow>
                         if newP = None \<or> newX = None
                         then Inr (-1, c4\<lparr>pool := nsp_put (nsp_put (pool c4) newX) newP\<rparr>, X)
                         else
                           (let pivot = choose_pivot g (ns_nodes P) (ns_nodes X)
                            in case nsp_get c4 (min (unat (out_degree (node_os g ! pivot)))
                                                    (length (ns_nodes P))) of
                                 (None, c5) \<Rightarrow>
                                   Inr (-1, c5\<lparr>pool := nsp_put (nsp_put (pool c5) newX) newP\<rparr>, X)
                               | (Some still_in_P, c5) \<Rightarrow>
                                   (case bk_loop g cb c5 P X pivot (nodeset_clear still_in_P)
                                           (the newP) (the newX) 0 of
                                      Inl f \<Rightarrow> Inl f
                                    | Inr (ret, c6, X', still_in_P', newP', newX') \<Rightarrow>
                                        Inr (ret,
                                             c6\<lparr>pool := nsp_put (nsp_put (nsp_put (pool c6)
                                                            (Some still_in_P')) (Some newX'))
                                                            (Some newP')\<rparr>,
                                             X')))))))"
| "bk_loop g cb c P X pivot still_in_P newP newX i =
     (if i < length (ns_nodes P)
      then
        (let v = ns_nodes P ! i
         in if graph_edge_exists (out_edges (node_os g ! pivot)) v
            then (case nodeset_insert_sorted c still_in_P v of
                    Inl f \<Rightarrow> Inl f
                  | Inr (r, still_in_P1, c1) \<Rightarrow>
                      if r \<noteq> 0 then Inr (-1, c1, X, still_in_P1, newP, newX)
                      else bk_loop g cb c1 P X pivot still_in_P1 newP newX (i + 1))
            else
              (case nodeset_append c (R c) v of
                 (r, R1, c1) \<Rightarrow>
                   if r \<noteq> 0 then Inl AssertionFailed
                   else
                     (case insert_neighbours (c1\<lparr>R := R1\<rparr>) (nodeset_clear newX)
                             (out_edges (node_os g ! v)) of
                        Inl f \<Rightarrow> Inl f
                      | Inr (r2, newX1, c2) \<Rightarrow>
                          if r2 \<noteq> 0 then Inr (-1, c2, X, still_in_P, nodeset_clear newP, newX1)
                          else
                            (case insert_common c2 newX1 (nodeset_clear newP)
                                    (ns_nodes still_in_P) of
                               Inl f \<Rightarrow> Inl f
                             | Inr (r3, newP1, c3) \<Rightarrow>
                                 if r3 \<noteq> 0 then Inr (-1, c3, X, still_in_P, newP1, newX1)
                                 else
                                   (case insert_common c3 newX1 newP1
                                           (drop (i + 1) (ns_nodes P)) of
                                      Inl f \<Rightarrow> Inl f
                                    | Inr (r4, newP2, c4) \<Rightarrow>
                                        if r4 \<noteq> 0
                                        then Inr (-1, c4, X, still_in_P, newP2, newX1)
                                        else
                                          (case BronKerbosch g cb c4 newP2
                                                  (nodeset_intersect newX1 X) of
                                             Inl f \<Rightarrow> Inl f
                                           | Inr (ret, c5, newX2) \<Rightarrow>
                                               if ret \<noteq> 0
                                               then Inr (ret, c5, X, still_in_P, newP2, newX2)
                                               else
                                                 (case nodeset_insert_sorted
                                                         (c5\<lparr>R := (R c5)\<lparr>ns_nodes :=
                                                                butlast (ns_nodes (R c5))\<rparr>\<rparr>)
                                                         X v of
                                                    Inl f \<Rightarrow> Inl f
                                                  | Inr (r5, X1, c6) \<Rightarrow>
                                                      if r5 \<noteq> 0
                                                      then Inr (-1, c6, X1, still_in_P, newP2, newX2)
                                                      else bk_loop g cb c6 P X1 pivot still_in_P
                                                             newP2 newX2 (i + 1))))))))
      else Inr (0, c, X, still_in_P, newP, newX))"
  by pat_completeness auto

termination BronKerbosch
proof -
  have room: "ns_nodes ns1 = ns_nodes ns"
    if "nodeset_room c ns = (r, ns1, c1)" for c :: "'a cliqctx" and ns r ns1 c1
    using that
    by (auto simp add: nodeset_room_def nodeset_increase_capacity_def Let_def
        split: if_splits prod.splits bool.splits)
  have ins: "length (ns_nodes ns') \<le> Suc (length (ns_nodes ns))"
    if "nodeset_insert_sorted c ns v = Inr (r, ns', c')" for c :: "'a cliqctx" and ns v r ns' c'
  proof -
    obtain r0 ns1 c1 where rm: "nodeset_room c ns = (r0, ns1, c1)" by (cases "nodeset_room c ns")
    note e = room [OF rm]
    from that rm e show ?thesis
      by (auto simp add: nodeset_insert_sorted_def nodeset_sort_def Let_def
          split: if_splits option.splits)
  qed
  have com: "length (ns_nodes nP') \<le> length (ns_nodes nP) + length xs"
    if "insert_common c nX nP xs = Inr (r, nP', c')"
    for c :: "'a cliqctx" and nX nP xs r nP' c'
    using that
  proof (induction xs arbitrary: c nP)
    case Nil
    then show ?case by simp
  next
    case (Cons x xs)
    show ?case
    proof (cases "nodeset_contains nX x")
      case False
      with Cons.prems have "insert_common c nX nP xs = Inr (r, nP', c')" by simp
      from Cons.IH [OF this] show ?thesis by simp
    next
      case True
      with Cons.prems obtain r1 nP1 c1 where
        i: "nodeset_insert_sorted c nP x = Inr (r1, nP1, c1)"
        by (auto split: sum.splits)
      show ?thesis
      proof (cases "r1 = 0")
        case False
        with Cons.prems True i have "nP' = nP1" by simp
        with ins [OF i] show ?thesis by simp
      next
        case z: True
        with Cons.prems True i have "insert_common c1 nX nP1 xs = Inr (r, nP', c')" by simp
        from Cons.IH [OF this] ins [OF i] show ?thesis by simp
      qed
    qed
  qed
  show ?thesis
    apply (relation "inv_image (less_than <*lex*> less_than <*lex*> less_than)
       (\<lambda>x. case x of
          Inl (g, cb, c, P, X) \<Rightarrow> (length (ns_nodes P), 1 :: nat, 0 :: nat)
        | Inr (g, cb, c, P, X, pivot, sip, nP, nX, i) \<Rightarrow>
            (length (ns_nodes sip) + (length (ns_nodes P) - i), 0, length (ns_nodes P) - i))")
        apply (intro wf_inv_image wf_lex_prod wf_less_than)
       apply (simp add: nodeset_clear_def)
      apply (auto dest!: ins)[1]
     apply (auto dest!: com simp add: nodeset_clear_def)[1]
    apply auto[1]
    done
qed

declare BronKerbosch.simps [simp del] bk_loop.simps [simp del]

section \<open>Enumerating the maximal cliques of a component\<close>

text \<open>The \<open>STAILQ_FOREACH\<close> of \<open>component_iterate_maximal_cliques\<close> with its assertion.\<close>

fun append_nodes ::
    "'ctx cliqctx \<Rightarrow> NodeSet \<Rightarrow> nat list \<Rightarrow> fatal + NodeSet \<times> 'ctx cliqctx" where
  "append_nodes c P [] = Inr (P, c)"
| "append_nodes c P (n # ns) =
     (case nodeset_append c P n of
        (r, P1, c1) \<Rightarrow> if r \<noteq> 0 then Inl AssertionFailed else append_nodes c1 P1 ns)"

text \<open>
  \<open>component_iterate_maximal_cliques\<close> on the component at address \<open>cmp\<close>, with the
  outcomes \<open>heap\<close> of the coming calls of \<open>malloc\<close> and \<open>realloc\<close>. It returns its
  \<open>int\<close>, the context as the callback left it, and the outcomes not yet used. Before
  \<open>nodeset_alloc\<close> has run, \<open>cliqctx.R\<close> is not initialised.
\<close>

definition component_iterate_maximal_cliques ::
    "Graph \<Rightarrow> nat \<Rightarrow> (nat list \<Rightarrow> 'ctx \<Rightarrow> int \<times> 'ctx) \<Rightarrow> 'ctx \<Rightarrow> bool list
       \<Rightarrow> fatal + int \<times> 'ctx \<times> bool list" where
  "component_iterate_maximal_cliques g cmp callback ctx heap =
     (let c0 = \<lparr>user_ctx = ctx, R = \<lparr>ns_cap = 0, ns_sorted = False, ns_nodes = []\<rparr>,
                pool = nsp_init, heap_ok = heap\<rparr>;
          node_count = unat (cnode_count (the_comp g cmp))
      in case nodeset_alloc c0 0 of
           (R0, c1) \<Rightarrow>
             (case nodeset_alloc c1 node_count of
                (P, c2) \<Rightarrow>
                  (case nodeset_alloc c2 node_count of
                     (X, c3) \<Rightarrow>
                       if R0 = None \<or> P = None \<or> X = None then Inr (-1, ctx, heap_ok c3)
                       else
                         (case append_nodes (c3\<lparr>R := the R0\<rparr>) (the P)
                                 (cnodes (the_comp g cmp)) of
                            Inl f \<Rightarrow> Inl f
                          | Inr (P1, c4) \<Rightarrow>
                              (let P2 = nodeset_sort P1
                               in if length (ns_nodes P2) \<noteq> node_count
                                     \<or> length (ns_nodes (the X)) \<noteq> 0
                                     \<or> length (ns_nodes (R c4)) \<noteq> 0
                                  then Inl AssertionFailed
                                  else (case BronKerbosch g callback c4 P2 (the X) of
                                          Inl f \<Rightarrow> Inl f
                                        | Inr (ret, c5, X') \<Rightarrow>
                                            Inr (ret, user_ctx c5, heap_ok c5)))))))"

text \<open>The \<open>TAILQ_FOREACH\<close> of \<open>graph_iterate_maximal_cliques\<close>.\<close>

fun iterate_cliques ::
    "Graph \<Rightarrow> (nat list \<Rightarrow> 'ctx \<Rightarrow> int \<times> 'ctx) \<Rightarrow> nat list \<Rightarrow> 'ctx \<Rightarrow> bool list
       \<Rightarrow> fatal + int \<times> 'ctx \<times> bool list" where
  "iterate_cliques g callback [] ctx heap = Inr (0, ctx, heap)"
| "iterate_cliques g callback (cmp # cs) ctx heap =
     (case component_iterate_maximal_cliques g cmp callback ctx heap of
        Inl f \<Rightarrow> Inl f
      | Inr (r, ctx1, heap1) \<Rightarrow>
          if r \<noteq> 0 then Inr (r, ctx1, heap1) else iterate_cliques g callback cs ctx1 heap1)"

definition graph_iterate_maximal_cliques ::
    "Graph \<Rightarrow> (nat list \<Rightarrow> 'ctx \<Rightarrow> int \<times> 'ctx) \<Rightarrow> 'ctx \<Rightarrow> bool list
       \<Rightarrow> fatal + int \<times> errno option \<times> 'ctx \<times> bool list" where
  "graph_iterate_maximal_cliques gra callback ctx heap =
     (let required_flags = GRAPH_NOPARALLEL OR GRAPH_NOLOOP OR GRAPH_DUAL
      in if flags gra AND required_flags \<noteq> required_flags
         then Inr (-1, Some EINVAL, ctx, heap)
         else (case iterate_cliques gra callback (components gra) ctx heap of
                 Inl f \<Rightarrow> Inl f
               | Inr (r, ctx1, heap1) \<Rightarrow> Inr (r, None, ctx1, heap1)))"

section \<open>Running the library\<close>

text \<open>
  The caller's \<open>struct Graph\<close> before \<open>graph_init\<close>, with the outcomes of the coming
  allocations.
\<close>

definition raw_graph :: "bool list \<Rightarrow> bool list \<Rightarrow> Graph" where
  "raw_graph ms cs =
     \<lparr>components = [], nodes = [], hashmask = 0, flags = 0, node_count = 0,
      resize_threshold = 0, node_os = [], comp_heap = [], malloc_ok = ms, chunk_ok = cs\<rparr>"

text \<open>The graph that a successful \<open>graph_init\<close> leaves.\<close>

definition fresh_graph :: "bool list \<Rightarrow> bool list \<Rightarrow> 32 word \<Rightarrow> Graph" where
  "fresh_graph ms cs fl =
     \<lparr>components = [], nodes = replicate 16 [], hashmask = 15, flags = fl, node_count = 0,
      resize_threshold = 64, node_os = [], comp_heap = [], malloc_ok = ms, chunk_ok = cs\<rparr>"

text \<open>
  A caller's sequence of insertions, as \<open>graph_add_file\<close> issues them for the lines of
  its input (one field: a node; two fields: an edge), with the value of every call.
\<close>

datatype call = Add_node string | Add_edge string string

fun graph_call :: "(string \<Rightarrow> 32 word) \<Rightarrow> Graph \<Rightarrow> call \<Rightarrow> fatal + int \<times> Graph" where
  "graph_call hf g (Add_node s) = graph_add_node hf g s"
| "graph_call hf g (Add_edge s1 s2) = graph_add_edge hf g s1 s2"

fun graph_calls :: "(string \<Rightarrow> 32 word) \<Rightarrow> Graph \<Rightarrow> call list \<Rightarrow> fatal + int list \<times> Graph" where
  "graph_calls hf g [] = Inr ([], g)"
| "graph_calls hf g (c # cs) =
     (case graph_call hf g c of
        Inl f \<Rightarrow> Inl f
      | Inr (r, g1) \<Rightarrow>
          (case graph_calls hf g1 cs of
             Inl f \<Rightarrow> Inl f
           | Inr (rs, g2) \<Rightarrow> Inr (r # rs, g2)))"

text \<open>
  \<open>graph_init\<close> on fresh storage, then the calls, under the given outcomes of
  \<open>malloc\<close>; no obstack allocation fails.
\<close>

definition graph_session ::
    "bool list \<Rightarrow> (string \<Rightarrow> 32 word) \<Rightarrow> 32 word \<Rightarrow> call list \<Rightarrow> fatal + int list \<times> Graph" where
  "graph_session ms hf fl cs =
     (case graph_init (raw_graph ms []) fl of
        Inl f \<Rightarrow> Inl f
      | Inr (r, e, g) \<Rightarrow> if r \<noteq> 0 then Inr ([r], g) else graph_calls hf g cs)"

text \<open>The nodes that the hash table holds under a given identifier, bucket by bucket.\<close>

definition index_nodes_named :: "string \<Rightarrow> Graph \<Rightarrow> nat list" where
  "index_nodes_named s g = filter (\<lambda>n. ident (node_os g ! n) = s) (concat (nodes g))"

text \<open>
  The edges of the graph, as \<open>graph_iterate_edges\<close> hands them to a callback that
  records the identifiers of source and target.
\<close>

definition record_edge ::
    "Graph \<Rightarrow> nat \<Rightarrow> nat \<Rightarrow> (string \<times> string) list \<Rightarrow> int \<times> (string \<times> string) list" where
  "record_edge g src t acc = (0, acc @ [(ident (node_os g ! src), ident (node_os g ! t))])"

definition graph_edges :: "Graph \<Rightarrow> (string \<times> string) list" where
  "graph_edges g = snd (graph_iterate_edges g (record_edge g) [])"

definition component_count :: "Graph \<Rightarrow> nat" where
  "component_count g = length (components g)"

text \<open>
  The connected components of the simple undirected graph that a sequence of calls
  implies: its vertices are the identifiers named by the calls, and the two
  identifiers of every edge call are joined, whatever the direction.
\<close>

definition cc_add_vertex :: "string \<Rightarrow> string list list \<Rightarrow> string list list" where
  "cc_add_vertex v P = (if \<exists>C \<in> set P. v \<in> set C then P else P @ [[v]])"

definition cc_join :: "string \<Rightarrow> string \<Rightarrow> string list list \<Rightarrow> string list list" where
  "cc_join a b P =
     (let P1 = cc_add_vertex b (cc_add_vertex a P)
      in filter (\<lambda>C. a \<notin> set C \<and> b \<notin> set C) P1
         @ [concat (filter (\<lambda>C. a \<in> set C \<or> b \<in> set C) P1)])"

fun implied_components :: "call list \<Rightarrow> string list list \<Rightarrow> string list list" where
  "implied_components [] P = P"
| "implied_components (Add_node s # cs) P = implied_components cs (cc_add_vertex s P)"
| "implied_components (Add_edge a b # cs) P = implied_components cs (cc_join a b P)"

definition implied_component_count :: "call list \<Rightarrow> nat" where
  "implied_component_count cs = length (implied_components cs [])"

text \<open>What a run returned and a view of the graph it left.\<close>

definition session_view :: "(Graph \<Rightarrow> 'a) \<Rightarrow> fatal + int list \<times> Graph \<Rightarrow> fatal + int list \<times> 'a" where
  "session_view f r = map_sum id (map_prod id f) r"

text \<open>
  A stand-in for the absent \<open>jenkins_hash\<close>, used only to run concrete examples: the
  functions above take the hash as a parameter.
\<close>

definition toy_hash :: "string \<Rightarrow> 32 word" where
  "toy_hash s = foldl (\<lambda>h c. h * 31 + of_char c) 0 s"

text \<open>The 64 two-letter identifiers \<open>aa\<close>, \<open>ab\<close>, ..., \<open>hh\<close>.\<close>

definition ids64 :: "string list" where
  "ids64 = concat (map (\<lambda>a. map (\<lambda>b. [a, b]) ''abcdefgh'') ''abcdefgh'')"

fun the_index :: "'a list \<Rightarrow> 'a \<Rightarrow> nat" where
  "the_index [] x = 0"
| "the_index (y # ys) x = (if x = y then 0 else Suc (the_index ys x))"

text \<open>
  The graph after \<open>graph_init\<close> with flags undirected and no-parallel and
  \<open>graph_add_node\<close> for each of the 64 identifiers (see \<open>session64\<close> below): 64
  singleton components, and the table of 16 buckets at its resize threshold. \<open>ms\<close>
  are the outcomes of the calls of \<open>malloc\<close> to come.
\<close>

definition graph64 :: "bool list \<Rightarrow> Graph" where
  "graph64 ms =
     \<lparr>components = [0 ..< 64],
      nodes = [[63, 54, 45, 36, 27, 18, 9, 0], [55, 46, 37, 28, 19, 10, 1],
               [47, 38, 29, 20, 11, 2], [39, 30, 21, 12, 3], [31, 22, 13, 4],
               [23, 14, 5], [15, 6], [7], [], [56], [57, 48], [58, 49, 40],
               [59, 50, 41, 32], [60, 51, 42, 33, 24], [61, 52, 43, 34, 25, 16],
               [62, 53, 44, 35, 26, 17, 8]],
      hashmask = 15, flags = 3, node_count = 64, resize_threshold = 64,
      node_os = map (\<lambda>s. \<lparr>ncomp = Some (the_index ids64 s), out_edges = [], out_degree = 0,
                            in_degree = 0, hv = toy_hash s, ident = s\<rparr>) ids64,
      comp_heap = map (\<lambda>i. Some \<lparr>cnodes = [i], cnode_count = 1, cedge_count = 0\<rparr>) [0 ..< 64],
      malloc_ok = ms, chunk_ok = []\<rparr>"

section \<open>Properties of graph states and of their changes\<close>

text \<open>
  What every operation leaves alone or only uses up: the flags are immutable, pending
  allocation outcomes are only consumed, and once \<open>resize_threshold\<close> is
  \<open>UINT32_MAX\<close> the hash table keeps its size and mask.
\<close>

definition evolves :: "Graph \<Rightarrow> Graph \<Rightarrow> bool" where
  "evolves g g' \<longleftrightarrow>
     flags g' = flags g
     \<and> set (malloc_ok g') \<subseteq> set (malloc_ok g)
     \<and> set (chunk_ok g') \<subseteq> set (chunk_ok g)
     \<and> (resize_threshold g = UINT32_MAX \<longrightarrow>
          resize_threshold g' = UINT32_MAX \<and> hashmask g' = hashmask g
          \<and> length (nodes g') = length (nodes g))"

text \<open>
  The outcome of a call started in \<open>g\<close>: if \<open>xmalloc\<close> ended the process, an obstack
  allocation was refused; if the call returned, the graph evolved.
\<close>

definition alloc_sound :: "Graph \<Rightarrow> fatal + 'a \<times> Graph \<Rightarrow> bool" where
  "alloc_sound g res =
     (case res of
        Inl f \<Rightarrow> f = MallocExit \<longrightarrow> False \<in> set (chunk_ok g)
      | Inr (r, g') \<Rightarrow> evolves g g')"

definition alloc_sound0 :: "Graph \<Rightarrow> fatal + Graph \<Rightarrow> bool" where
  "alloc_sound0 g res =
     (case res of
        Inl f \<Rightarrow> f = MallocExit \<longrightarrow> False \<in> set (chunk_ok g)
      | Inr g' \<Rightarrow> evolves g g')"

text \<open>Changes that leave the hash table, the flags and every list of edges alone.\<close>

definition same_edges :: "Graph \<Rightarrow> Graph \<Rightarrow> bool" where
  "same_edges g g' \<longleftrightarrow>
     nodes g' = nodes g \<and> hashmask g' = hashmask g \<and> resize_threshold g' = resize_threshold g
     \<and> node_count g' = node_count g \<and> flags g' = flags g
     \<and> length (node_os g') = length (node_os g)
     \<and> (\<forall>n. out_edges (node_os g' ! n) = out_edges (node_os g ! n))
     \<and> (\<forall>n. hv (node_os g' ! n) = hv (node_os g ! n))
     \<and> (\<forall>n. ident (node_os g' ! n) = ident (node_os g ! n))"

definition table_state :: "Graph \<Rightarrow> 32 word \<times> nat \<times> 32 word \<times> 32 word" where
  "table_state g = (hashmask g, length (nodes g), resize_threshold g, node_count g)"

text \<open>
  The shape of the hash table: \<open>2 ^ k\<close> buckets under the mask \<open>2 ^ k - 1\<close>. The table
  starts with \<open>k = 4\<close>, and a table of \<open>2 ^ 28\<close> buckets has the threshold
  \<open>UINT32_MAX\<close> and is final. Every address that a bucket holds is an allocated node.
\<close>

definition table_shape :: "Graph \<Rightarrow> bool" where
  "table_shape g \<longleftrightarrow>
     (\<exists>k \<in> {.. 28 :: nat}. hashmask g = 2 ^ k - 1 \<and> length (nodes g) = 2 ^ k
        \<and> (k = 28 \<longrightarrow> resize_threshold g = UINT32_MAX))"

definition index_valid :: "Graph \<Rightarrow> bool" where
  "index_valid g \<longleftrightarrow> (\<forall>b \<in> set (nodes g). \<forall>n \<in> set b. n < length (node_os g))"

definition graph_wf :: "Graph \<Rightarrow> bool" where
  "graph_wf g \<longleftrightarrow> table_shape g \<and> index_valid g"

text \<open>The outgoing edges of the node at an address (none where no node is allocated).\<close>

definition node_edges :: "Graph \<Rightarrow> nat \<Rightarrow> Edge list" where
  "node_edges g n = (if n < length (node_os g) then out_edges (node_os g ! n) else [])"




section \<open>Cliques\<close>

text \<open>
  \<open>adjacent g a b\<close>: the node at \<open>a\<close> has an edge to the node at \<open>b\<close>, which is what
  \<open>graph_edge_exists(a, b)\<close> tests. The members of a clique are pairwise adjacent in
  both directions; a clique is maximal in \<open>U\<close> when every node of \<open>U\<close> outside it
  misses a member: no edge joins the two, in either direction.
\<close>

definition adjacent :: "Graph \<Rightarrow> nat \<Rightarrow> nat \<Rightarrow> bool" where
  "adjacent g a b = graph_edge_exists (out_edges (node_os g ! a)) b"

definition is_clique :: "Graph \<Rightarrow> nat list \<Rightarrow> bool" where
  "is_clique g xs \<longleftrightarrow> (\<forall>a \<in> set xs. \<forall>b \<in> set xs. a \<noteq> b \<longrightarrow> adjacent g a b)"

definition is_maximal :: "Graph \<Rightarrow> nat list \<Rightarrow> nat list \<Rightarrow> bool" where
  "is_maximal g U xs \<longleftrightarrow>
     (\<forall>w \<in> set U. w \<notin> set xs \<longrightarrow> (\<exists>m \<in> set xs. \<not> adjacent g m w \<and> \<not> adjacent g w m))"

text \<open>
  What the flags no-parallel and dual give the search on the nodes \<open>U\<close> of a component:
  no node has two edges to the same target, and adjacency is symmetric.
\<close>

definition adjacency_ok :: "Graph \<Rightarrow> nat list \<Rightarrow> bool" where
  "adjacency_ok g U \<longleftrightarrow>
     (\<forall>a \<in> set U. distinct (map tgt (out_edges (node_os g ! a)))
        \<and> (\<forall>b \<in> set U. adjacent g a b \<longrightarrow> adjacent g b a))"

text \<open>
  A component as \<open>component_iterate_maximal_cliques\<close> expects it: \<open>node_count\<close> is the
  length of its list of nodes, which holds no node twice.
\<close>

definition clique_input :: "Graph \<Rightarrow> nat \<Rightarrow> bool" where
  "clique_input g cmp \<longleftrightarrow>
     unat (cnode_count (the_comp g cmp)) = length (cnodes (the_comp g cmp))
     \<and> distinct (cnodes (the_comp g cmp))
     \<and> adjacency_ok g (cnodes (the_comp g cmp))"

text \<open>A callback that also records every array it is given, in a list kept in the context.\<close>

definition logged ::
    "(nat list \<Rightarrow> 'u \<Rightarrow> int \<times> 'u) \<Rightarrow> nat list \<Rightarrow> 'u \<times> nat list list
       \<Rightarrow> int \<times> 'u \<times> nat list list" where
  "logged cb xs = (\<lambda>(u, h). case cb xs u of (r, u') \<Rightarrow> (r, u', h @ [xs]))"

text \<open>
  A node set that is marked sorted and is strictly ascending. The candidates of \<open>Rs\<close> in
  \<open>U\<close> are the nodes of \<open>U\<close> outside \<open>Rs\<close> that every member of \<open>Rs\<close> has an edge to.
\<close>

definition ns_ok :: "NodeSet \<Rightarrow> bool" where
  "ns_ok ns \<longleftrightarrow> ns_sorted ns \<and> sorted_wrt (<) (ns_nodes ns)"

definition candidates :: "Graph \<Rightarrow> nat list \<Rightarrow> nat list \<Rightarrow> nat set" where
  "candidates g U Rs = {w \<in> set U. w \<notin> set Rs \<and> (\<forall>r \<in> set Rs. adjacent g r w)}"

text \<open>
  The state of a call \<open>BronKerbosch(cliqctx, P, X)\<close> of the search in \<open>U\<close>: \<open>R\<close> is a
  clique of \<open>U\<close> without repetition and within its capacity, \<open>P\<close> and \<open>X\<close> are sorted and
  disjoint, and together they are the candidates of \<open>R\<close>.
\<close>

definition bk_call :: "Graph \<Rightarrow> nat list \<Rightarrow> 'ctx cliqctx \<Rightarrow> NodeSet \<Rightarrow> NodeSet \<Rightarrow> bool" where
  "bk_call g U c P X \<longleftrightarrow>
     ns_ok P \<and> ns_ok X \<and> set (ns_nodes P) \<inter> set (ns_nodes X) = {}
     \<and> set (ns_nodes P) \<union> set (ns_nodes X) = candidates g U (ns_nodes (R c))
     \<and> is_clique g (ns_nodes (R c)) \<and> distinct (ns_nodes (R c))
     \<and> set (ns_nodes (R c)) \<subseteq> set U
     \<and> length (ns_nodes (R c)) \<le> ns_cap (R c)"

section \<open>Construction: flag validation\<close>

lemma defined_flags_eq:
  "GRAPH_UNDIRECTED OR GRAPH_NOPARALLEL OR GRAPH_NOLOOP OR GRAPH_DUAL = (15 :: 32 word)"
  by (simp add: GRAPH_UNDIRECTED_def GRAPH_NOPARALLEL_def GRAPH_NOLOOP_def GRAPH_DUAL_def)

lemma bit_15: "bit (15 :: 32 word) n \<longleftrightarrow> n < 4"
proof -
  have e: "(15 :: 32 word) = mask 4" by (simp add: mask_eq_exp_minus_1)
  show ?thesis unfolding e bit_mask_iff by auto
qed

lemma outside_bit_nonzero:
  assumes "bit (fl :: 32 word) n" "4 \<le> n"
  shows "fl AND NOT (GRAPH_UNDIRECTED OR GRAPH_NOPARALLEL OR GRAPH_NOLOOP OR GRAPH_DUAL) \<noteq> 0"
proof
  assume z: "fl AND NOT (GRAPH_UNDIRECTED OR GRAPH_NOPARALLEL OR GRAPH_NOLOOP OR GRAPH_DUAL) = 0"
  have p: "possible_bit TYPE(32 word) n"
    using assms(1) by (rule bit_imp_possible_bit)
  have "\<not> bit (15 :: 32 word) n"
    using assms(2) unfolding bit_15 by simp
  with p assms(1) have "bit (fl AND NOT (15 :: 32 word)) n"
    unfolding bit_and_iff bit_not_iff by simp
  then show False using z unfolding defined_flags_eq by simp
qed

text \<open>
  C10. A flags argument with any bit set outside the four defined flags (bit 4 or
  higher) makes \<open>graph_init\<close> return -1 with \<open>errno = EINVAL\<close>, leaving the caller's
  structure and the pending allocations untouched (nothing was allocated); the
  conflict of undirected with dual is rejected in exactly the same way.
\<close>

theorem graph_init_rejects_undefined_flags:
  "(bit fl n \<and> 4 \<le> n \<longrightarrow> graph_init g fl = Inr (-1, Some EINVAL, g)) \<and>
   (fl AND GRAPH_UNDIRECTED \<noteq> 0 \<and> fl AND GRAPH_DUAL \<noteq> 0
      \<longrightarrow> graph_init g fl = Inr (-1, Some EINVAL, g))"
  using outside_bit_nonzero [of fl n] by (auto simp add: graph_init_def Let_def)

theorem graph_init_rejects_undefined_flags_witness:
  "bit (16 :: 32 word) 4 \<and> (4 :: nat) \<le> 4
   \<and> graph_init (raw_graph [False] []) 16 = Inr (-1, Some EINVAL, raw_graph [False] [])
   \<and> (9 :: 32 word) AND GRAPH_UNDIRECTED \<noteq> 0 \<and> (9 :: 32 word) AND GRAPH_DUAL \<noteq> 0
   \<and> graph_init (raw_graph [False] []) 9 = Inr (-1, Some EINVAL, raw_graph [False] [])"
proof -
  have b: "bit (16 :: 32 word) 4" by (simp add: bit_iff_odd)
  have c: "(9 :: 32 word) AND GRAPH_UNDIRECTED \<noteq> 0 \<and> (9 :: 32 word) AND GRAPH_DUAL \<noteq> 0"
    by (simp add: GRAPH_UNDIRECTED_def GRAPH_DUAL_def)
  show ?thesis
    using b c graph_init_rejects_undefined_flags [of 16 4 "raw_graph [False] []"]
      graph_init_rejects_undefined_flags [of 9 0 "raw_graph [False] []"] by simp
qed

section \<open>Basic facts\<close>

subsection \<open>Allocation outcomes and the evolution of the graph\<close>

lemma evolves_refl [simp]: "evolves g g"
  by (simp add: evolves_def)

lemma evolves_trans: "evolves g g1 \<Longrightarrow> evolves g1 g2 \<Longrightarrow> evolves g g2"
  unfolding evolves_def by auto

lemma le_UINT32_MAX: "\<not> (x :: 32 word) > UINT32_MAX"
proof -
  have "unat x < 2 ^ 32" using unsigned_less [of x] by simp
  then show ?thesis unfolding UINT32_MAX_def by (simp add: not_less word_le_nat_alt)
qed

lemma alloc_sound_bind:
  assumes "alloc_sound g m"
    and "\<And>r g1. m = Inr (r, g1) \<Longrightarrow> alloc_sound g1 (k r g1)"
  shows "alloc_sound g (case m of Inl f \<Rightarrow> Inl f | Inr (r, g1) \<Rightarrow> k r g1)"
proof (cases m)
  case (Inl f)
  with assms(1) show ?thesis by (simp add: alloc_sound_def)
next
  case (Inr p)
  obtain r g1 where p: "p = (r, g1)" by (cases p)
  from assms(1) Inr p have e: "evolves g g1" by (simp add: alloc_sound_def)
  from assms(2) Inr p have "alloc_sound g1 (k r g1)" by simp
  with e have "alloc_sound g (k r g1)"
    unfolding alloc_sound_def evolves_def by (auto split: sum.splits)
  with Inr p show ?thesis by simp
qed

lemma alloc_sound0_bind:
  assumes "alloc_sound0 g m"
    and "\<And>g1. m = Inr g1 \<Longrightarrow> alloc_sound g1 (k g1)"
  shows "alloc_sound g (case m of Inl f \<Rightarrow> Inl f | Inr g1 \<Rightarrow> k g1)"
proof (cases m)
  case (Inl f)
  with assms(1) show ?thesis by (simp add: alloc_sound_def alloc_sound0_def)
next
  case (Inr g1)
  from assms(1) Inr have e: "evolves g g1" by (simp add: alloc_sound0_def)
  from assms(2) Inr have "alloc_sound g1 (k g1)" by simp
  with e have "alloc_sound g (k g1)"
    unfolding alloc_sound_def evolves_def by (auto split: sum.splits)
  with Inr show ?thesis by simp
qed

lemma alloc_sound0_bind0:
  assumes "alloc_sound0 g m"
    and "\<And>g1. m = Inr g1 \<Longrightarrow> alloc_sound0 g1 (k g1)"
  shows "alloc_sound0 g (case m of Inl f \<Rightarrow> Inl f | Inr g1 \<Rightarrow> k g1)"
proof (cases m)
  case (Inl f)
  with assms(1) show ?thesis by (simp add: alloc_sound0_def)
next
  case (Inr g1)
  from assms(1) Inr have e: "evolves g g1" by (simp add: alloc_sound0_def)
  from assms(2) Inr have "alloc_sound0 g1 (k g1)" by simp
  with e have "alloc_sound0 g (k g1)"
    unfolding alloc_sound0_def evolves_def by (auto split: sum.splits)
  with Inr show ?thesis by simp
qed

lemma alloc_sound_evolves: "evolves g g1 \<Longrightarrow> alloc_sound g1 res \<Longrightarrow> alloc_sound g res"
  unfolding alloc_sound_def evolves_def by (auto split: sum.splits)

lemma alloc_sound_Inr [simp]: "alloc_sound g (Inr (r, g')) \<longleftrightarrow> evolves g g'"
  by (simp add: alloc_sound_def)

lemma alloc_sound_Inl_other [simp]:
  "alloc_sound g (Inl AssertionFailed)" "alloc_sound g (Inl NullDeref)"
  "alloc_sound g (Inl Aborted)"
  by (simp_all add: alloc_sound_def)

lemma alloc_sound0_Inr [simp]: "alloc_sound0 g (Inr g') \<longleftrightarrow> evolves g g'"
  by (simp add: alloc_sound0_def)

lemma alloc_sound0_Inl_other [simp]:
  "alloc_sound0 g (Inl AssertionFailed)" "alloc_sound0 g (Inl NullDeref)"
  "alloc_sound0 g (Inl Aborted)"
  by (simp_all add: alloc_sound0_def)

lemma evolves_malloc: "malloc g = (b, g') \<Longrightarrow> evolves g g'"
  by (auto simp add: evolves_def malloc_def split: list.splits)

lemma obstack_alloc_sound: "alloc_sound0 g (obstack_alloc g)"
  by (auto simp add: alloc_sound0_def evolves_def obstack_alloc_def split: list.splits)

lemma evolves_graph_new_component: "graph_new_component g = (c, g') \<Longrightarrow> evolves g g'"
  by (auto simp add: evolves_def graph_new_component_def malloc_def Let_def
      split: list.splits bool.splits)

lemma evolves_component_add_node [simp]:
  "evolves g g1 \<Longrightarrow> evolves g (component_add_node g1 c n)"
  by (simp add: evolves_def component_add_node_def Let_def)

lemma evolves_graph_remove_component [simp]:
  "evolves g g1 \<Longrightarrow> evolves g (graph_remove_component g1 c)"
  by (simp add: evolves_def graph_remove_component_def)

lemma graph_merge_components_sound: "alloc_sound g (graph_merge_components g c1 c2)"
  by (simp add: graph_merge_components_def Let_def evolves_def graph_remove_component_def
      split: prod.splits)

lemma node_add_out_edge_sound: "alloc_sound0 g (node_add_out_edge g n e)"
  by (simp add: node_add_out_edge_def Let_def evolves_def split: option.splits)

lemma evolves_graph_attempt_hash_resize:
  "resize_threshold g \<noteq> UINT32_MAX \<Longrightarrow> evolves g (graph_attempt_hash_resize g)"
  by (auto simp add: graph_attempt_hash_resize_def Let_def evolves_def malloc_def
      split: list.splits bool.splits prod.splits)

lemma graph_alloc_node_sound: "alloc_sound g (graph_alloc_node g)"
  unfolding graph_alloc_node_def
proof (rule alloc_sound0_bind [OF obstack_alloc_sound])
  fix g1 :: Graph
  let ?g2 = "g1\<lparr>node_os := node_os g1 @ [blank_node], node_count := node_count g1 + 1\<rparr>"
  have e: "evolves g1 ?g2" by (simp add: evolves_def)
  show "alloc_sound g1
          (let n = length (node_os g1); g2 = ?g2
           in Inr (n, if resize_threshold g2 < node_count g2
                      then graph_attempt_hash_resize g2 else g2))"
  proof (cases "resize_threshold ?g2 < node_count ?g2")
    case True
    then have "resize_threshold ?g2 \<noteq> UINT32_MAX" using le_UINT32_MAX by metis
    then have "evolves ?g2 (graph_attempt_hash_resize ?g2)"
      by (rule evolves_graph_attempt_hash_resize)
    with e True show ?thesis by (simp add: Let_def evolves_trans del: Graph.simps)
  next
    case False
    with e show ?thesis by (simp add: Let_def)
  qed
qed

lemma graph_remove_last_node_sound: "alloc_sound0 g (graph_remove_last_node g n)"
  by (simp add: graph_remove_last_node_def Let_def evolves_def split: option.splits)

lemma evolves_link_new_node [simp]: "evolves g g1 \<Longrightarrow> evolves g (link_new_node g1 n h s)"
  by (simp add: evolves_def link_new_node_def Let_def)


lemma graph_add_node_internal_sound: "alloc_sound g (graph_add_node_internal hf g s cc)"
proof (cases "bucket_lookup (node_os g) (hf s) s (nodes g ! unat (hashmask g AND hf s))")
  case (Some n)
  then show ?thesis by (simp add: graph_add_node_internal_def)
next
  case None
  have "alloc_sound g
          (case graph_alloc_node g of
             Inl f \<Rightarrow> Inl f
           | Inr (n, g1) \<Rightarrow>
               (let g2 = link_new_node g1 n (hf s) s
                in if cc
                   then (case graph_new_component g2 of
                           (None, g3) \<Rightarrow>
                             (case graph_remove_last_node g3 n of
                                Inl f \<Rightarrow> Inl f
                              | Inr g4 \<Rightarrow> Inr (None, g4))
                         | (Some c, g3) \<Rightarrow> Inr (Some n, component_add_node g3 c n))
                   else Inr (Some n, g2)))"
  proof (rule alloc_sound_bind [OF graph_alloc_node_sound])
    fix n and g1 :: Graph
    let ?g2 = "link_new_node g1 n (hf s) s"
    have e2: "evolves g1 ?g2" by simp
    obtain c g3 where nc: "graph_new_component ?g2 = (c, g3)" by fastforce
    have e3: "evolves g1 g3"
      using evolves_trans [OF e2 evolves_graph_new_component [OF nc]] .
    have "alloc_sound g1
            (case graph_remove_last_node g3 n of
               Inl f \<Rightarrow> Inl f
             | Inr g4 \<Rightarrow> Inr (None :: nat option, g4))"
      by (rule alloc_sound_evolves [OF e3])
         (rule alloc_sound0_bind [OF graph_remove_last_node_sound], simp)
    then show "alloc_sound g1
            (let g2 = ?g2
             in if cc
                then (case graph_new_component g2 of
                        (None, g3) \<Rightarrow>
                          (case graph_remove_last_node g3 n of
                             Inl f \<Rightarrow> Inl f
                           | Inr g4 \<Rightarrow> Inr (None, g4))
                      | (Some c, g3) \<Rightarrow> Inr (Some n, component_add_node g3 c n))
                else Inr (Some n, g2))"
      using e2 e3 nc by (cases c) (simp_all add: Let_def)
  qed
  with None show ?thesis by (simp add: graph_add_node_internal_def Let_def)
qed

lemma graph_add_node_sound: "alloc_sound g (graph_add_node hf g s)"
  unfolding graph_add_node_def Let_def
  by (rule alloc_sound_bind [OF graph_add_node_internal_sound])
     (auto split: option.splits dest: )


lemma link_edge_sound: "alloc_sound g (link_edge g src e)"
  unfolding link_edge_def
  by (rule alloc_sound0_bind [OF node_add_out_edge_sound]) simp

lemma link_edge_sound_after: "evolves g g1 \<Longrightarrow> alloc_sound g (link_edge g1 src e)"
  by (rule alloc_sound_evolves [OF _ link_edge_sound])

lemma do_add_edge_sound: "alloc_sound g (do_add_edge g src t)"
  unfolding do_add_edge_def
proof (rule alloc_sound0_bind [OF obstack_alloc_sound])
  fix g0 :: Graph
  obtain c g1 where nc: "graph_new_component g0 = (c, g1)" by fastforce
  note e1 = evolves_graph_new_component [OF nc]
  have a: "alloc_sound g0
             (case graph_new_component g0 of
                (None, g1) \<Rightarrow> Inr (-1 :: int, g1)
              | (Some c, g1) \<Rightarrow>
                  (let g2 = component_add_node g1 c src;
                       g3 = (if src \<noteq> t then component_add_node g2 c t else g2)
                   in link_edge g3 src (Edge t)))"
    using nc e1 by (cases c) (simp_all add: Let_def link_edge_sound_after)
  have m: "alloc_sound g0
             (case graph_merge_components g0 (the (ncomp (node_os g0 ! src)))
                                             (the (ncomp (node_os g0 ! t))) of
                Inl f \<Rightarrow> Inl f
              | Inr (c, g1) \<Rightarrow> link_edge g1 src (Edge t))"
    by (rule alloc_sound_bind [OF graph_merge_components_sound]) (rule link_edge_sound)
  show "alloc_sound g0
          (let e = Edge t
           in if ncomp (node_os g0 ! src) = None \<and> ncomp (node_os g0 ! t) = None
              then (case graph_new_component g0 of
                      (None, g1) \<Rightarrow> Inr (-1 :: int, g1)
                    | (Some c, g1) \<Rightarrow>
                        (let g2 = component_add_node g1 c src;
                             g3 = (if src \<noteq> t then component_add_node g2 c t else g2)
                         in link_edge g3 src e))
              else if ncomp (node_os g0 ! src) = None
              then link_edge (component_add_node g0 (the (ncomp (node_os g0 ! t))) src) src e
              else if ncomp (node_os g0 ! t) = None
              then link_edge (component_add_node g0 (the (ncomp (node_os g0 ! src))) t) src e
              else if ncomp (node_os g0 ! src) = ncomp (node_os g0 ! t)
              then link_edge g0 src e
              else (case graph_merge_components g0 (the (ncomp (node_os g0 ! src)))
                                                  (the (ncomp (node_os g0 ! t))) of
                      Inl f \<Rightarrow> Inl f
                    | Inr (c, g1) \<Rightarrow> link_edge g1 src e))"
    using a m by (simp add: Let_def link_edge_sound link_edge_sound_after)
qed

lemma graph_remove_last_node_if_sound:
  "alloc_sound0 g (if b then graph_remove_last_node g n else Inr g)"
  by (simp add: graph_remove_last_node_sound)

lemma graph_add_edge_undo_sound: "alloc_sound g (graph_add_edge_undo g n1 n2)"
  unfolding graph_add_edge_undo_def
  by (rule alloc_sound0_bind [OF graph_remove_last_node_if_sound],
      rule alloc_sound0_bind [OF graph_remove_last_node_if_sound]) simp

lemma graph_add_edge_nodes_sound: "alloc_sound g (graph_add_edge_nodes g n1 n2 sw)"
proof -
  obtain c g1 where nc: "graph_new_component g = (c, g1)" by fastforce
  note e1 = evolves_graph_new_component [OF nc]
  have loop: "alloc_sound g
                (case graph_new_component g of
                   (None, g1) \<Rightarrow>
                     (case graph_remove_last_node g1 n1 of
                        Inl f \<Rightarrow> Inl f
                      | Inr g2 \<Rightarrow> Inr (-1 :: int, g2))
                 | (Some c, g1) \<Rightarrow> Inr (0 :: int, component_add_node g1 c n1))"
  proof (cases c)
    case None
    have "alloc_sound g (case graph_remove_last_node g1 n1 of
                           Inl f \<Rightarrow> Inl f
                         | Inr g2 \<Rightarrow> Inr (-1 :: int, g2))"
      by (rule alloc_sound_evolves [OF e1])
         (rule alloc_sound0_bind [OF graph_remove_last_node_sound], simp)
    with nc None show ?thesis by simp
  next
    case (Some cc)
    with nc e1 show ?thesis by simp
  qed
  have add: "alloc_sound g
               (case do_add_edge g n1 n2 of
                  Inl f \<Rightarrow> Inl f
                | Inr (r, g1) \<Rightarrow>
                    if r < 0
                    then (if sw then graph_add_edge_undo g1 n2 n1 else graph_add_edge_undo g1 n1 n2)
                    else if ncomp (node_os g1 ! n1) = None
                            \<or> ncomp (node_os g1 ! n1) \<noteq> ncomp (node_os g1 ! n2)
                    then Inl AssertionFailed
                    else if flags g1 AND GRAPH_DUAL \<noteq> 0 \<and> n1 \<noteq> n2
                    then (case do_add_edge g1 n2 n1 of
                            Inl f \<Rightarrow> Inl f
                          | Inr (r2, g2) \<Rightarrow> if r2 < 0 then Inr (-1 :: int, g2) else Inr (2 :: int, g2))
                    else Inr (1 :: int, g1))"
  proof (rule alloc_sound_bind [OF do_add_edge_sound])
    fix r :: int and g1 :: Graph
    have d: "alloc_sound g1 (case do_add_edge g1 n2 n1 of
                               Inl f \<Rightarrow> Inl f
                             | Inr (r2, g2) \<Rightarrow> if r2 < 0 then Inr (-1 :: int, g2) else Inr (2 :: int, g2))"
      by (rule alloc_sound_bind [OF do_add_edge_sound]) simp
    show "alloc_sound g1
            (if r < 0
             then (if sw then graph_add_edge_undo g1 n2 n1 else graph_add_edge_undo g1 n1 n2)
             else if ncomp (node_os g1 ! n1) = None
                     \<or> ncomp (node_os g1 ! n1) \<noteq> ncomp (node_os g1 ! n2)
             then Inl AssertionFailed
             else if flags g1 AND GRAPH_DUAL \<noteq> 0 \<and> n1 \<noteq> n2
             then (case do_add_edge g1 n2 n1 of
                     Inl f \<Rightarrow> Inl f
                   | Inr (r2, g2) \<Rightarrow> if r2 < 0 then Inr (-1 :: int, g2) else Inr (2 :: int, g2))
             else Inr (1 :: int, g1))"
      using d by (simp add: graph_add_edge_undo_sound)
  qed
  show ?thesis
    unfolding graph_add_edge_nodes_def using loop add by simp
qed

lemma graph_add_edge_sound: "alloc_sound g (graph_add_edge hf g s1 s2)"
  unfolding graph_add_edge_def
proof (rule alloc_sound_bind [OF graph_add_node_internal_sound])
  fix r1 :: "nat option" and g1 :: Graph
  show "alloc_sound g1
          (case r1 of
             None \<Rightarrow> Inr (-1 :: int, g1)
           | Some n1 \<Rightarrow>
               (case graph_add_node_internal hf g1 s2 False of
                  Inl f \<Rightarrow> Inl f
                | Inr (None, g2) \<Rightarrow>
                    (if ncomp (node_os g2 ! n1) = None
                     then (case graph_remove_last_node g2 n1 of
                             Inl f \<Rightarrow> Inl f
                           | Inr g3 \<Rightarrow> Inr (-1 :: int, g3))
                     else Inr (-1 :: int, g2))
                | Inr (Some n2, g2) \<Rightarrow>
                    if flags g2 AND GRAPH_UNDIRECTED \<noteq> 0
                       \<and> nodes_cmp (node_os g2 ! n1) (node_os g2 ! n2) > 0
                    then graph_add_edge_nodes g2 n2 n1 True
                    else graph_add_edge_nodes g2 n1 n2 False))"
  proof (cases r1)
    case None
    then show ?thesis by simp
  next
    case (Some n1)
    have "alloc_sound g1
            (case graph_add_node_internal hf g1 s2 False of
               Inl f \<Rightarrow> Inl f
             | Inr (r2, g2) \<Rightarrow>
                 (case r2 of
                    None \<Rightarrow>
                      (if ncomp (node_os g2 ! n1) = None
                       then (case graph_remove_last_node g2 n1 of
                               Inl f \<Rightarrow> Inl f
                             | Inr g3 \<Rightarrow> Inr (-1 :: int, g3))
                       else Inr (-1 :: int, g2))
                  | Some n2 \<Rightarrow>
                      if flags g2 AND GRAPH_UNDIRECTED \<noteq> 0
                         \<and> nodes_cmp (node_os g2 ! n1) (node_os g2 ! n2) > 0
                      then graph_add_edge_nodes g2 n2 n1 True
                      else graph_add_edge_nodes g2 n1 n2 False))"
    proof (rule alloc_sound_bind [OF graph_add_node_internal_sound])
      fix r2 :: "nat option" and g2 :: Graph
      have u: "alloc_sound g2 (case graph_remove_last_node g2 n1 of
                                 Inl f \<Rightarrow> Inl f
                               | Inr g3 \<Rightarrow> Inr (-1 :: int, g3))"
        by (rule alloc_sound0_bind [OF graph_remove_last_node_sound]) simp
      show "alloc_sound g2
              (case r2 of
                 None \<Rightarrow>
                   (if ncomp (node_os g2 ! n1) = None
                    then (case graph_remove_last_node g2 n1 of
                            Inl f \<Rightarrow> Inl f
                          | Inr g3 \<Rightarrow> Inr (-1 :: int, g3))
                    else Inr (-1 :: int, g2))
               | Some n2 \<Rightarrow>
                   if flags g2 AND GRAPH_UNDIRECTED \<noteq> 0
                      \<and> nodes_cmp (node_os g2 ! n1) (node_os g2 ! n2) > 0
                   then graph_add_edge_nodes g2 n2 n1 True
                   else graph_add_edge_nodes g2 n1 n2 False)"
        using u by (cases r2) (simp_all add: graph_add_edge_nodes_sound)
    qed
    with Some show ?thesis by simp
  qed
qed

lemma graph_call_sound: "alloc_sound g (graph_call hf g c)"
  by (cases c) (simp_all add: graph_add_node_sound graph_add_edge_sound)

lemma graph_calls_sound: "alloc_sound g (graph_calls hf g cs)"
proof (induction cs arbitrary: g)
  case Nil
  show ?case by simp
next
  case (Cons c cs)
  have "alloc_sound g
          (case graph_call hf g c of
             Inl f \<Rightarrow> Inl f
           | Inr (r, g1) \<Rightarrow>
               (case graph_calls hf g1 cs of
                  Inl f \<Rightarrow> Inl f
                | Inr (rs, g2) \<Rightarrow> Inr (r # rs, g2)))"
  proof (rule alloc_sound_bind [OF graph_call_sound])
    fix r :: int and g1 :: Graph
    show "alloc_sound g1 (case graph_calls hf g1 cs of
                            Inl f \<Rightarrow> Inl f
                          | Inr (rs, g2) \<Rightarrow> Inr (r # rs, g2))"
      by (rule alloc_sound_bind [OF Cons.IH]) simp
  qed
  then show ?case by simp
qed

subsection \<open>Case analysis of the operations\<close>


lemma graph_add_node_cases:
  assumes "graph_add_node hf g s = Inr (r, g')"
  obtains (failed) "graph_add_node_internal hf g s True = Inr (None, g')" "r = -1"
  | (added) n where "graph_add_node_internal hf g s True = Inr (Some n, g')"
      "r = (if TAILQ_LAST (components g) \<noteq> TAILQ_LAST (components g') then 1 else 0)"
  using assms unfolding graph_add_node_def Let_def
  by (auto split: option.splits sum.splits prod.splits if_splits)



lemma same_edges_refl [simp]: "same_edges g g"
  by (simp add: same_edges_def)



lemma set_ncomp_nth:
  "set_ncomp c os n ! m = (if m = n \<and> n < length os then (os ! n)\<lparr>ncomp := c\<rparr> else os ! m)"
  by (auto simp add: set_ncomp_def nth_list_update not_less list_update_beyond)

lemma set_ncomp_fields [simp]:
  "length (set_ncomp c os n) = length os"
  "out_edges (set_ncomp c os n ! m) = out_edges (os ! m)"
  "hv (set_ncomp c os n ! m) = hv (os ! m)"
  "ident (set_ncomp c os n ! m) = ident (os ! m)"
  by (simp_all add: set_ncomp_nth) (simp add: set_ncomp_def)

lemma same_edges_component_add_node [simp]:
  "same_edges g g1 \<Longrightarrow> same_edges g (component_add_node g1 c n)"
  by (simp add: same_edges_def component_add_node_def Let_def)

lemma same_edges_malloc: "malloc g = (b, g') \<Longrightarrow> same_edges g g'"
  by (auto simp add: same_edges_def malloc_def split: list.splits)



lemma fold_set_ncomp_fields [simp]:
  "length (fold (\<lambda>n os. set_ncomp c os n) ns os) = length os"
  "out_edges (fold (\<lambda>n os. set_ncomp c os n) ns os ! m) = out_edges (os ! m)"
  "hv (fold (\<lambda>n os. set_ncomp c os n) ns os ! m) = hv (os ! m)"
  "ident (fold (\<lambda>n os. set_ncomp c os n) ns os ! m) = ident (os ! m)"
  by (induction ns arbitrary: os) simp_all



subsection \<open>Lookups\<close>

lemma strcmp_eq_0 [simp]: "strcmp a b = 0 \<longleftrightarrow> a = b"
  by (induction a b rule: strcmp.induct) auto

lemma nodes_cmp_self [simp]: "nodes_cmp n n = 0"
  by (simp add: nodes_cmp_def)





subsection \<open>The shape of the hash table\<close>






lemma length_rehash_bucket [simp]: "length (rehash_bucket os m b nb) = length nb"
  by (induction b arbitrary: nb) simp_all

lemma length_fold_rehash [simp]:
  "length (fold (\<lambda>i nb. rehash_bucket os m (f i) nb) is nb) = length nb"
  by (induction "is" arbitrary: nb) simp_all









subsection \<open>Creating a node\<close>




lemma node_edges_append_blank [simp]:
  "node_edges (g\<lparr>node_os := node_os g0 @ [\<lparr>ncomp = c, out_edges = [], out_degree = a,
                                             in_degree = b, hv = h, ident = s\<rparr>]\<rparr>) =
   node_edges (g\<lparr>node_os := node_os g0\<rparr>)"
  by (rule ext) (simp add: node_edges_def nth_append less_Suc_eq)




lemma malloc_failed: "malloc g = (False, g') \<Longrightarrow> False \<in> set (malloc_ok g)"
  by (auto simp add: malloc_def split: list.splits)




subsection \<open>Inserting an edge between two resolved nodes\<close>








subsection \<open>Resolving the endpoints of an edge\<close>

lemma graph_wf_fresh_graph [simp]: "graph_wf (fresh_graph ms cs fl)"
proof -
  have "table_shape (fresh_graph ms cs fl)"
    unfolding table_shape_def by (rule bexI [of _ 4]) (simp_all add: fresh_graph_def)
  then show ?thesis by (simp add: graph_wf_def index_valid_def fresh_graph_def)
qed




section \<open>Lookups after a resize of the hash table\<close>

lemma graph_calls_append:
  "graph_calls hf g (cs @ ds) =
     (case graph_calls hf g cs of
        Inl f \<Rightarrow> Inl f
      | Inr (rs, g1) \<Rightarrow>
          (case graph_calls hf g1 ds of
             Inl f \<Rightarrow> Inl f
           | Inr (rs', g2) \<Rightarrow> Inr (rs @ rs', g2)))"
  by (induction cs arbitrary: g) (auto split: sum.splits prod.splits)

lemma session64:
  "graph_session (replicate 65 True @ ms) toy_hash 3 (map Add_node ids64)
   = Inr (replicate 64 1, graph64 ms)"
  by code_simp

lemma graph_session_3:
  "graph_session (True # ms) hf 3 cs = graph_calls hf (fresh_graph ms [] 3) cs"
  by (simp add: graph_session_def graph_init_def raw_graph_def fresh_graph_def malloc_def
      obstack_begin_def obstack_alloc_def
      GRAPH_UNDIRECTED_def GRAPH_NOPARALLEL_def GRAPH_NOLOOP_def GRAPH_DUAL_def)

lemma session_after64:
  "graph_session (replicate 65 True @ ms) toy_hash 3 (map Add_node ids64 @ ds) =
     (case graph_calls toy_hash (graph64 ms) ds of
        Inl f \<Rightarrow> Inl f
      | Inr (rs, g) \<Rightarrow> Inr (replicate 64 1 @ rs, g))"
proof -
  have e: "replicate 65 True @ ms = True # (replicate 64 True @ ms)"
    by (simp add: numeral_eq_Suc)
  show ?thesis
    using session64 [of ms] unfolding e graph_session_3 graph_calls_append by simp
qed

lemmas session_after64_all = session_after64 [of "[]", simplified]

text \<open>
  C1 (the code loses nodes at the first resize). After \<open>graph_init\<close> and
  \<open>graph_add_node\<close> for the 64 identifiers \<open>aa\<close> ... \<open>hh\<close>, adding the 65th node \<open>x\<close>
  doubles the table; adding \<open>ba\<close> again, which was the 9th identifier, then returns 1
  (a new node), and the table holds two Node records named \<open>ba\<close>, at addresses 8
  and 65.
\<close>

theorem resize_duplicates_identifier:
  "session_view (index_nodes_named ''ba'')
     (graph_session (replicate 65 True) toy_hash 3 (map Add_node ids64 @ [Add_node ''x'', Add_node ''ba'']))
   = Inr (replicate 64 1 @ [1, 1], [8, 65])"
  unfolding session_after64_all by code_simp

text \<open>
  C2 (same defect). After the same 64 nodes, the edge \<open>ba\<close> -- \<open>x\<close> and the node
  \<open>ba\<close> once more, the graph has 65 components, while the graph that these calls
  imply has 64 connected components.
\<close>

theorem resize_breaks_component_count:
  "session_view component_count
     (graph_session (replicate 65 True) toy_hash 3
        (map Add_node ids64 @ [Add_edge ''ba'' ''x'', Add_node ''ba'']))
   = Inr (replicate 64 1 @ [1, 1], 65)
   \<and> implied_component_count
        (map Add_node ids64 @ [Add_edge ''ba'' ''x'', Add_node ''ba'']) = 64"
  unfolding session_after64_all by code_simp

text \<open>
  C7 (same defect). With no-parallel set, the edge from \<open>ba\<close> to \<open>x\<close> inserted twice
  in a row returns 1 both times, and two edges are stored (with undirected also set,
  each runs from \<open>x\<close> to a node named \<open>ba\<close>).
\<close>

theorem resize_breaks_idempotence:
  "session_view graph_edges
     (graph_session (replicate 65 True) toy_hash 3
        (map Add_node ids64 @ [Add_edge ''ba'' ''x'', Add_edge ''ba'' ''x'']))
   = Inr (replicate 64 1 @ [1, 1], [(''x'', ''ba''), (''x'', ''ba'')])"
  unfolding session_after64_all by code_simp

text \<open>
  C8 (same defect). With undirected and no-parallel set, inserting the edge as
  (\<open>ba\<close>, \<open>x\<close>) leaves 64 components and 65 nodes, inserting it as (\<open>x\<close>, \<open>ba\<close>) leaves
  65 components and 66 nodes; and after (\<open>ba\<close>, \<open>x\<close>), the call with (\<open>x\<close>, \<open>ba\<close>)
  returns 1 and stores a second edge.
\<close>

theorem resize_breaks_undirected_symmetry:
  "session_view component_count
     (graph_session (replicate 65 True) toy_hash 3 (map Add_node ids64 @ [Add_edge ''ba'' ''x'']))
   = Inr (replicate 64 1 @ [1], 64)
   \<and> session_view component_count
       (graph_session (replicate 65 True) toy_hash 3 (map Add_node ids64 @ [Add_edge ''x'' ''ba'']))
     = Inr (replicate 64 1 @ [1], 65)
   \<and> session_view node_count
       (graph_session (replicate 65 True) toy_hash 3 (map Add_node ids64 @ [Add_edge ''ba'' ''x'']))
     = Inr (replicate 64 1 @ [1], 65)
   \<and> session_view node_count
       (graph_session (replicate 65 True) toy_hash 3 (map Add_node ids64 @ [Add_edge ''x'' ''ba'']))
     = Inr (replicate 64 1 @ [1], 66)
   \<and> session_view graph_edges
       (graph_session (replicate 65 True) toy_hash 3
          (map Add_node ids64 @ [Add_edge ''ba'' ''x'', Add_edge ''x'' ''ba'']))
     = Inr (replicate 64 1 @ [1, 1], [(''x'', ''ba''), (''x'', ''ba'')])"
  unfolding session_after64_all by code_simp

section \<open>Allocation failures\<close>

lemma failed_resize:
  "malloc_ok g = False # ms \<Longrightarrow>
   graph_attempt_hash_resize g = g\<lparr>malloc_ok := ms, resize_threshold := UINT32_MAX\<rparr>"
  by (simp add: graph_attempt_hash_resize_def malloc_def Let_def)

text \<open>
  C6, as the claim states it, fails: with the 66th call of \<open>malloc\<close> (the new bucket
  array, asked for when the 65th node arrives) returning NULL and every later call
  succeeding, the table still has its 16 buckets after two more insertions, and the
  threshold is \<open>UINT32_MAX\<close>: no later insertion retried the resize.
\<close>

theorem failed_resize_not_retried:
  "session_view table_state
     (graph_session (replicate 65 True @ [False]) toy_hash 3
        (map Add_node ids64 @ [Add_node ''x'', Add_node ''y'', Add_node ''z'']))
   = Inr (replicate 64 1 @ [1, 1, 1], (15, 16, 0xFFFFFFFF, 67))"
  unfolding session_after64 by code_simp

text \<open>
  C6, amended. When \<open>malloc\<close> refuses the new bucket array, the attempt changes
  nothing but the threshold, which becomes \<open>UINT32_MAX\<close> (the table, its mask and the
  nodes stay as they are, so lookups go on as before); and whatever calls follow, the
  table keeps its size and mask and the threshold stays \<open>UINT32_MAX\<close>: the resize is
  never attempted again.
\<close>

theorem failed_resize_is_final:
  "malloc_ok g = False # ms \<Longrightarrow>
   graph_attempt_hash_resize g = g\<lparr>malloc_ok := ms, resize_threshold := UINT32_MAX\<rparr>
   \<and> (\<forall>cs rs g'. graph_calls hf (graph_attempt_hash_resize g) cs = Inr (rs, g') \<longrightarrow>
         hashmask g' = hashmask g \<and> length (nodes g') = length (nodes g)
         \<and> resize_threshold g' = UINT32_MAX)"
proof -
  assume m: "malloc_ok g = False # ms"
  have r: "graph_attempt_hash_resize g = g\<lparr>malloc_ok := ms, resize_threshold := UINT32_MAX\<rparr>"
    using m by (rule failed_resize)
  have "hashmask g' = hashmask g \<and> length (nodes g') = length (nodes g)
        \<and> resize_threshold g' = UINT32_MAX"
    if c: "graph_calls hf (graph_attempt_hash_resize g) cs = Inr (rs, g')" for cs rs g'
  proof -
    have "alloc_sound (graph_attempt_hash_resize g)
            (graph_calls hf (graph_attempt_hash_resize g) cs)"
      by (rule graph_calls_sound)
    with c have "evolves (graph_attempt_hash_resize g) g'" by simp
    then show ?thesis unfolding r evolves_def by simp
  qed
  with r show ?thesis by blast
qed

theorem failed_resize_is_final_witness:
  "malloc_ok (fresh_graph [False] [] 0) = False # []
   \<and> graph_calls toy_hash (graph_attempt_hash_resize (fresh_graph [False] [] 0)) [Add_node ''x'']
       = Inr ([1],
              \<lparr>components = [0], nodes = (replicate 16 [])[8 := [0]], hashmask = 15, flags = 0,
               node_count = 1, resize_threshold = 0xFFFFFFFF,
               node_os = [\<lparr>ncomp = Some 0, out_edges = [], out_degree = 0, in_degree = 0,
                           hv = 120, ident = ''x''\<rparr>],
               comp_heap = [Some \<lparr>cnodes = [0], cnode_count = 1, cedge_count = 0\<rparr>],
               malloc_ok = [], chunk_ok = []\<rparr>)
   \<and> hashmask (fresh_graph [False] [] 0) = 15
   \<and> length (nodes (fresh_graph [False] [] 0)) = 16"
proof -
  let ?g0 = "fresh_graph [False] [] 0"
  let ?G = "\<lparr>components = [0], nodes = (replicate 16 [])[8 := [0]], hashmask = 15, flags = 0,
             node_count = 1, resize_threshold = 0xFFFFFFFF,
             node_os = [\<lparr>ncomp = Some 0, out_edges = [], out_degree = 0, in_degree = 0,
                         hv = 120, ident = ''x''\<rparr>],
             comp_heap = [Some \<lparr>cnodes = [0], cnode_count = 1, cedge_count = 0\<rparr>],
             malloc_ok = [], chunk_ok = []\<rparr>"
  have h: "malloc_ok ?g0 = False # []" by (simp add: fresh_graph_def)
  have c: "graph_calls toy_hash (graph_attempt_hash_resize ?g0) [Add_node ''x''] = Inr ([1], ?G)"
    by code_simp
  from failed_resize_is_final [OF h, of toy_hash] c
  have "hashmask ?G = hashmask ?g0 \<and> length (nodes ?G) = length (nodes ?g0)
        \<and> resize_threshold ?G = UINT32_MAX"
    by blast
  then show ?thesis using h c by (simp add: fresh_graph_def)
qed




section \<open>The return value of graph_add_edge\<close>



section \<open>Self-edges under no-loop\<close>









end
